theory Spec2Isabelle
  imports Main
begin

section \<open>Bytes, arrays and faults\<close>

text \<open>
  The shell of \<^verbatim>\<open>shell.c\<close> works on fixed-size \<^verbatim>\<open>char\<close> arrays inside one
  \<^verbatim>\<open>SHELL_TypeDef\<close> object. An array is a list of bytes whose length is the size of the
  array; a C string is read from an array up to its first zero byte. Every access that C
  leaves undefined (an index outside the array, a string without terminator) is a
  \<open>fault\<close>, returned as \<open>Inl\<close>.
\<close>

datatype fault =
    BufferIndex nat
  | HistoryIndex int
  | ParamIndex nat
  | TableIndex nat
  | StringOverrun
  | DivisionByZero
  | CounterOverflow
  | NoReturn

definition bindE :: "fault + 'a \<Rightarrow> ('a \<Rightarrow> fault + 'b) \<Rightarrow> fault + 'b" where
  "bindE m f = (case m of Inl e \<Rightarrow> Inl e | Inr x \<Rightarrow> f x)"

definition NUL :: char where
  "NUL = CHR 0x00"

definition BS :: char where
  "BS = CHR 0x08"

definition SPC :: char where
  "SPC = CHR 0x20"

definition CRLF :: string where
  "CRLF = [CHR 0x0D, CHR 0x0A]"

text \<open>\<^verbatim>\<open>a[i]\<close> as an rvalue and \<^verbatim>\<open>a[i] = c\<close>, on a \<^verbatim>\<open>char\<close> array.\<close>

definition rd :: "string \<Rightarrow> nat \<Rightarrow> fault + char" where
  "rd a i = (if i < length a then Inr (a ! i) else Inl (BufferIndex i))"

definition wr :: "string \<Rightarrow> nat \<Rightarrow> char \<Rightarrow> fault + string" where
  "wr a i c = (if i < length a then Inr (a[i := c]) else Inl (BufferIndex i))"

text \<open>
  A \<^verbatim>\<open>char *\<close> is the list of the bytes from the pointer to the end of its array
  (\<open>drop i a\<close> for \<^verbatim>\<open>a + i\<close>); a string literal \<^verbatim>\<open>"abc"\<close> is \<open>lit ''abc''\<close>.
  \<open>cstring\<close> is the text a consumer of the pointer reads.
\<close>

definition lit :: "string \<Rightarrow> string" where
  "lit str = str @ [NUL]"

fun cstring :: "string \<Rightarrow> fault + string" where
  "cstring [] = Inl StringOverrun"
| "cstring (c # cs) =
     (if c = NUL then Inr []
      else (case cstring cs of Inl e \<Rightarrow> Inl e | Inr str \<Rightarrow> Inr (c # str)))"

text \<open>The C library's \<^verbatim>\<open>strcmp\<close>: zero iff both strings are equal.\<close>

fun strcmp :: "string \<Rightarrow> string \<Rightarrow> fault + int" where
  "strcmp (a # as) (b # bs) =
     (if a \<noteq> b then Inr (int (of_char a) - int (of_char b))
      else if a = NUL then Inr 0
      else strcmp as bs)"
| "strcmp _ _ = Inl StringOverrun"

section \<open>Configuration and data model\<close>

text \<open>
  Modelled from the spec: \<^verbatim>\<open>SHELL_CommandTypeDef\<close> is declared in the header
  \<^verbatim>\<open>shell.h\<close>, which is missing. A command descriptor has the fields \<^verbatim>\<open>shell.c\<close> reads:
  \<^verbatim>\<open>name\<close>, \<^verbatim>\<open>function\<close> (here the number of a handler of the application), \<^verbatim>\<open>desc\<close> and
  the optional \<^verbatim>\<open>help\<close>. The strings are their texts, without the terminator.
\<close>

record command_def =
  name :: string
  function_id :: nat
  desc :: string
  help_text :: "string option"

text \<open>
  The macros of the missing header are the fields of \<open>config\<close>: every function below
  that uses one takes the configuration as a parameter. \<open>TEXT_INFO\<close> is
  \<^verbatim>\<open>shellText[TEXT_INFO]\<close>, which embeds the version and the build date, and
  \<open>shellDefaultCommandList\<close> is the table of the commands registered at build time.

  The types of the tick \<^verbatim>\<open>SHELL_GET_TICK()\<close> and of the field \<^verbatim>\<open>activeTime\<close> are
  declared in the missing header too, and the C comparison
  \<^verbatim>\<open>SHELL_GET_TICK() - shell->activeTime < SHELL_DOUBLE_CLICK_TIME\<close> is machine
  arithmetic in those types: the difference can wrap. \<open>tick_elapsed_less t a d\<close> is the
  outcome of this comparison for the tick \<open>t\<close>, the field \<open>a\<close> and the limit \<open>d\<close>.
\<close>

record config =
  SHELL_COMMAND_MAX_LENGTH :: nat
  SHELL_HISTORY_MAX_NUMBER :: nat
  SHELL_PARAMETER_MAX_NUMBER :: nat
  SHELL_AUTO_PRASE :: bool
  SHELL_LONG_HELP :: bool
  SHELL_DISPLAY_RETURN :: bool
  SHELL_DOUBLE_CLICK_TIME :: int
  tick_elapsed_less :: "int \<Rightarrow> int \<Rightarrow> int \<Rightarrow> bool"
  SHELL_DEFAULT_COMMAND :: string
  TEXT_INFO :: string
  shellDefaultCommandList :: "command_def list"

definition TEXT_FUN_LIST :: string where
  "TEXT_FUN_LIST = CRLF @ ''COMMAND LIST:'' @ CRLF @ CRLF"

definition TEXT_CMD_NONE :: string where
  "TEXT_CMD_NONE = ''Command not found'' @ CRLF"

definition TEXT_CMD_TOO_LONG :: string where
  "TEXT_CMD_TOO_LONG = CRLF @ ''Warnig: Command is too long'' @ CRLF"

text \<open>
  Modelled from the spec: the three input modes (``\<open>inputMode\<close>: one of Normal,
  Escape-seen, CSI-seen''), under the names the source uses for them.
\<close>

datatype input_mode = SHELL_IN_NORMAL | SHELL_ANSI_ESC | SHELL_ANSI_CSI

text \<open>
  A key function is a function pointer: one of the four functions of \<^verbatim>\<open>shell.c\<close> that
  \<^verbatim>\<open>shellDefaultKeyFunctionList\<close> names, or a function of the application, known by a
  number. A table entry with a null pointer has \<open>None\<close>.
\<close>

datatype key_fn = FnShellEnter | FnShellTab | FnShellBackspace | FnShellAnsiStart | FnUser nat

type_synonym key_def = "char \<times> key_fn option"

text \<open>
  Modelled from the spec: \<^verbatim>\<open>SHELL_TypeDef\<close> is declared in the missing header. The
  fields are those the functions of \<^verbatim>\<open>shell.c\<close> use, under their names there, with the
  meaning the data model of the specification gives them. \<open>length_sh\<close> is the field
  \<^verbatim>\<open>length\<close>. \<open>param\<close> holds, for each pointer into \<^verbatim>\<open>buffer\<close>, its offset (\<open>None\<close>
  for a null pointer). A table pointer is the list of the entries behind it; the entry
  count is a field of its own, as in C. \<open>out\<close> is not a field of the C object: it is the
  sequence of bytes handed to the byte sink so far.

  Counts and indices (\<^verbatim>\<open>unsigned short\<close> fields, \<^verbatim>\<open>short\<close> loop counters) are \<open>nat\<close>
  and \<open>int\<close>. Differences that C computes in \<^verbatim>\<open>int\<close> and that can be negative are
  written on \<open>int\<close>. The model follows the C arithmetic as long as every array and table
  has fewer than \<open>2 ^ 15\<close> entries, so that no 16-bit count wraps; where a counter can
  wrap below that size (\<open>spaceLength\<close>, \<open>paramCount\<close>, the \<^verbatim>\<open>unsigned char\<close> lookup
  counters) the wrap is written out.
\<close>

record shell =
  command :: string
  buffer :: string
  length_sh :: nat
  cursor :: nat
  param :: "nat option list"
  history :: "string list"
  historyCount :: nat
  historyFlag :: int
  historyOffset :: int
  commandBase :: "command_def list"
  commandNumber :: nat
  keyFuncBase :: "key_def list"
  keyFuncNumber :: nat
  inputMode :: input_mode
  tabFlag :: bool
  isActive :: bool
  activeTime :: int
  out :: string

section \<open>Byte sink\<close>

text \<open>
  Modelled from the spec: \<^verbatim>\<open>shellDisplay\<close> and \<^verbatim>\<open>shellDisplayByte\<close> are declared in the
  missing header and defined outside \<^verbatim>\<open>shell.c\<close>. The spec: ``\<open>display(bytes) -> count
  written\<close> and \<open>displayByte(byte)\<close>, used for all output''. \<open>shellDisplay\<close> takes the text
  of its string argument and returns the count with the shell.
\<close>

definition shellDisplayByte :: "shell \<Rightarrow> char \<Rightarrow> shell" where
  "shellDisplayByte s c = s\<lparr>out := out s @ [c]\<rparr>"

definition shellDisplay :: "shell \<Rightarrow> string \<Rightarrow> nat \<times> shell" where
  "shellDisplay s str = (length str, s\<lparr>out := out s @ str\<rparr>)"

definition display :: "shell \<Rightarrow> string \<Rightarrow> shell" where
  "display s str = snd (shellDisplay s str)"

text \<open>A counting-down loop \<^verbatim>\<open>for (short i = n; i > 0; i--) shellDisplayByte(shell, c);\<close>\<close>

fun displayByte_times :: "shell \<Rightarrow> nat \<Rightarrow> char \<Rightarrow> shell" where
  "displayByte_times s 0 c = s"
| "displayByte_times s (Suc n) c = displayByte_times (shellDisplayByte s c) n c"

text \<open>\<^verbatim>\<open>for (short i = a; i < n; i++) shellDisplayByte(shell, shell->buffer[i]);\<close>\<close>

function displayBuffer_range :: "shell \<Rightarrow> nat \<Rightarrow> nat \<Rightarrow> fault + shell" where
  "displayBuffer_range s i n =
     (if i < n
      then bindE (rd (buffer s) i) (\<lambda>c. displayBuffer_range (shellDisplayByte s c) (Suc i) n)
      else Inr s)"
  by pat_completeness auto
termination
  by (relation "measure (\<lambda>(s, i, n). n - i)") auto

section \<open>Line editor\<close>

text \<open>\<^verbatim>\<open>shellDelete\<close>: \<^verbatim>\<open>while (length--) shellDisplay(shell, "\b \b");\<close>\<close>

fun shellDelete :: "shell \<Rightarrow> nat \<Rightarrow> shell" where
  "shellDelete s 0 = s"
| "shellDelete s (Suc n) = shellDelete (display s [BS, SPC, BS]) n"

definition shellClearLine :: "shell \<Rightarrow> shell" where
  "shellClearLine s =
     shellDelete (displayByte_times s (nat (int (length_sh s) - int (cursor s))) SPC) (length_sh s)"

text \<open>
  The tail shift of \<^verbatim>\<open>shellNormal\<close>:
  \<^verbatim>\<open>for (short i = length - cursor; i > 0; i--) buffer[cursor + i] = buffer[cursor + i - 1];\<close>
\<close>

fun shellNormal_shift :: "string \<Rightarrow> nat \<Rightarrow> nat \<Rightarrow> fault + string" where
  "shellNormal_shift buf cur 0 = Inr buf"
| "shellNormal_shift buf cur (Suc i) =
     bindE (rd buf (cur + Suc i - 1)) (\<lambda>c.
     bindE (wr buf (cur + Suc i) c) (\<lambda>buf'.
       shellNormal_shift buf' cur i))"

definition shellNormal :: "config \<Rightarrow> shell \<Rightarrow> char \<Rightarrow> fault + shell" where
  "shellNormal cfg s data =
     (if data = NUL then Inr s
      else if int (length_sh s) < int (SHELL_COMMAND_MAX_LENGTH cfg) - 1 then
        (if length_sh s = cursor s then
           bindE (wr (buffer s) (length_sh s) data) (\<lambda>b.
             Inr (shellDisplayByte
                    (s\<lparr>buffer := b, length_sh := length_sh s + 1, cursor := cursor s + 1\<rparr>) data))
         else
           bindE (shellNormal_shift (buffer s) (cursor s)
                    (nat (int (length_sh s) - int (cursor s)))) (\<lambda>b1.
           bindE (wr b1 (cursor s) data) (\<lambda>b2.
           bindE (wr b2 (length_sh s + 1) NUL) (\<lambda>b3.
             let s1 = s\<lparr>buffer := b3, cursor := cursor s + 1, length_sh := length_sh s + 1\<rparr> in
             bindE (displayBuffer_range s1 (cursor s1 - 1) (length_sh s1)) (\<lambda>s2.
               Inr (displayByte_times s2 (nat (int (length_sh s2) - int (cursor s2))) BS))))))
      else
        (let s1 = display s TEXT_CMD_TOO_LONG;
             s2 = display s1 (command s1)
         in bindE (cstring (buffer s2)) (\<lambda>line.
              Inr ((display s2 line)\<lparr>cursor := length_sh s2\<rparr>))))"

text \<open>
  The tail shift of \<^verbatim>\<open>shellBackspace\<close>:
  \<^verbatim>\<open>for (short i = 0; i < length - cursor; i++) buffer[cursor + i - 1] = buffer[cursor + i];\<close>
\<close>

function shellBackspace_shift :: "string \<Rightarrow> nat \<Rightarrow> nat \<Rightarrow> nat \<Rightarrow> fault + string" where
  "shellBackspace_shift buf cur i n =
     (if i < n
      then bindE (rd buf (cur + i)) (\<lambda>c.
           bindE (wr buf (cur + i - 1) c) (\<lambda>buf'.
             shellBackspace_shift buf' cur (Suc i) n))
      else Inr buf)"
  by pat_completeness auto
termination
  by (relation "measure (\<lambda>(buf, cur, i, n). n - i)") auto

definition shellBackspace :: "shell \<Rightarrow> fault + shell" where
  "shellBackspace s =
     (if length_sh s = 0 then Inr s
      else if cursor s = length_sh s then
        (let s1 = s\<lparr>length_sh := length_sh s - 1, cursor := cursor s - 1\<rparr> in
         bindE (wr (buffer s1) (length_sh s1) NUL) (\<lambda>b.
           Inr (shellDelete (s1\<lparr>buffer := b\<rparr>) 1)))
      else if cursor s > 0 then
        bindE (shellBackspace_shift (buffer s) (cursor s) 0
                 (nat (int (length_sh s) - int (cursor s)))) (\<lambda>b1.
          let s1 = s\<lparr>buffer := b1, length_sh := length_sh s - 1, cursor := cursor s - 1\<rparr> in
          bindE (wr (buffer s1) (length_sh s1) NUL) (\<lambda>b2.
            let s2 = shellDisplayByte (s1\<lparr>buffer := b2\<rparr>) BS in
            bindE (displayBuffer_range s2 (cursor s2) (length_sh s2)) (\<lambda>s3.
              let s4 = shellDisplayByte s3 SPC in
              Inr (displayByte_times s4 (nat (int (length_sh s4) - int (cursor s4) + 1)) BS))))
      else Inr s)"

section \<open>String helpers of \<^verbatim>\<open>shell.c\<close>\<close>

text \<open>
  \<^verbatim>\<open>shellStringCopy(dest, src)\<close> walks both pointers together, copies up to the
  terminator of \<open>src\<close>, terminates \<open>dest\<close> and returns the count; the result is the array
  behind \<open>dest\<close> after the copy.
\<close>

fun shellStringCopy :: "string \<Rightarrow> string \<Rightarrow> fault + (string \<times> nat)" where
  "shellStringCopy dest [] = Inl StringOverrun"
| "shellStringCopy [] (c # src) = Inl (BufferIndex 0)"
| "shellStringCopy (d # dest) (c # src) =
     (if c \<noteq> NUL
      then (case shellStringCopy dest src of
              Inl e \<Rightarrow> Inl e
            | Inr (dest', count) \<Rightarrow> Inr (c # dest', Suc count))
      else Inr (NUL # dest, 0))"

text \<open>
  \<^verbatim>\<open>shellStringCompare(dest, src)\<close>: the length of the common prefix. The loop condition
  \<^verbatim>\<open>*(dest + i) && *(src + i)\<close> does not read \<open>src\<close> once \<open>dest\<close> has ended.
\<close>

fun shellStringCompare :: "string \<Rightarrow> string \<Rightarrow> fault + nat" where
  "shellStringCompare [] src = Inl StringOverrun"
| "shellStringCompare (d # dest) [] = (if d = NUL then Inr 0 else Inl StringOverrun)"
| "shellStringCompare (d # dest) (c # src) =
     (if d \<noteq> NUL \<and> c \<noteq> NUL
      then (if d \<noteq> c then Inr 0
            else (case shellStringCompare dest src of
                    Inl e \<Rightarrow> Inl e
                  | Inr match \<Rightarrow> Inr (Suc match)))
      else Inr 0)"

section \<open>History ring\<close>

text \<open>\<^verbatim>\<open>shell->history[k]\<close>, where \<open>k\<close> is the C \<^verbatim>\<open>int\<close> the index expression yields.\<close>

definition history_at :: "string list \<Rightarrow> int \<Rightarrow> fault + string" where
  "history_at h k =
     (if 0 \<le> k \<and> k < int (length h) then Inr (h ! nat k) else Inl (HistoryIndex k))"

text \<open>The index of the slot that \<^verbatim>\<open>shellHistoryAdd\<close> compares the line with.\<close>

definition shellHistoryAdd_index :: "shell \<Rightarrow> int" where
  "shellHistoryAdd_index s = historyFlag s - 1"

definition shellHistoryAdd :: "config \<Rightarrow> shell \<Rightarrow> fault + shell" where
  "shellHistoryAdd cfg s0 =
     (let s = s0\<lparr>historyOffset := 0\<rparr> in
      bindE (history_at (history s) (shellHistoryAdd_index s)) (\<lambda>prev.
      bindE (strcmp prev (buffer s)) (\<lambda>r.
        if r = 0 then Inr s
        else
          bindE (history_at (history s) (historyFlag s)) (\<lambda>slot.
          bindE (shellStringCopy slot (buffer s)) (\<lambda>(slot', count).
            let s1 = s\<lparr>history := (history s)[nat (historyFlag s) := slot']\<rparr>;
                s2 = (if count \<noteq> 0 then s1\<lparr>historyFlag := historyFlag s1 + 1\<rparr> else s1);
                s3 = s2\<lparr>historyCount := historyCount s2 + 1\<rparr>;
                s4 = (if historyCount s3 > SHELL_HISTORY_MAX_NUMBER cfg
                      then s3\<lparr>historyCount := SHELL_HISTORY_MAX_NUMBER cfg\<rparr> else s3);
                s5 = (if historyFlag s4 \<ge> int (SHELL_HISTORY_MAX_NUMBER cfg)
                      then s4\<lparr>historyFlag := 0\<rparr> else s4)
            in Inr s5)))))"

text \<open>C's \<^verbatim>\<open>a % b\<close> on \<^verbatim>\<open>int\<close>: the quotient is truncated towards zero.\<close>

definition c_rem :: "int \<Rightarrow> int \<Rightarrow> fault + int" where
  "c_rem a b =
     (if b = 0 then Inl DivisionByZero
      else Inr (a - (sgn a * sgn b * (\<bar>a\<bar> div \<bar>b\<bar>)) * b))"

text \<open>The part of \<^verbatim>\<open>shellHistory\<close> after the offset has been moved (from \<^verbatim>\<open>shellClearLine\<close> on).\<close>

definition shellHistory_load :: "config \<Rightarrow> shell \<Rightarrow> fault + shell" where
  "shellHistory_load cfg s =
     (let s1 = shellClearLine s in
      if historyOffset s1 = 0 then Inr (s1\<lparr>length_sh := 0, cursor := 0\<rparr>)
      else
        bindE (c_rem (historyFlag s1 + int (SHELL_HISTORY_MAX_NUMBER cfg) + historyOffset s1)
                 (int (SHELL_HISTORY_MAX_NUMBER cfg))) (\<lambda>k.
        bindE (history_at (history s1) k) (\<lambda>src.
        bindE (shellStringCopy (buffer s1) src) (\<lambda>(b, count).
          let s2 = s1\<lparr>buffer := b, length_sh := count\<rparr> in
          if count = 0 then Inr s2
          else
            (let s3 = s2\<lparr>cursor := length_sh s2\<rparr> in
             bindE (cstring (buffer s3)) (\<lambda>line. Inr (display s3 line)))))))"

definition shellHistory :: "config \<Rightarrow> shell \<Rightarrow> nat \<Rightarrow> fault + shell" where
  "shellHistory cfg s dir =
     (if dir = 0 then
        (let m = (if int (historyCount s) > historyFlag s
                  then int (historyCount s) else historyFlag s)
         in shellHistory_load cfg
              (if historyOffset s \<le> - m then s\<lparr>historyOffset := - m\<rparr>
               else s\<lparr>historyOffset := historyOffset s - 1\<rparr>))
      else if dir = 1 then
        (if historyOffset s + 1 > 0 then Inr (s\<lparr>historyOffset := 0\<rparr>)
         else shellHistory_load cfg (s\<lparr>historyOffset := historyOffset s + 1\<rparr>))
      else Inr s)"

section \<open>Command table and help\<close>

text \<open>\<^verbatim>\<open>base + i\<close> dereferenced, for a table pointer \<open>base\<close>.\<close>

definition table_at :: "'a list \<Rightarrow> nat \<Rightarrow> fault + 'a" where
  "table_at tab i = (if i < length tab then Inr (tab ! i) else Inl (TableIndex i))"

text \<open>
  The \<^verbatim>\<open>do { shellDisplay(shell, " "); } while (--spaceLength);\<close> of \<^verbatim>\<open>shellDisplayItem\<close>,
  entered with \<open>spaceLength > 0\<close>.
\<close>

function shellDisplayItem_pad :: "shell \<Rightarrow> nat \<Rightarrow> shell" where
  "shellDisplayItem_pad s spaceLength =
     (let s1 = display s [SPC] in
      if spaceLength - 1 \<noteq> 0 then shellDisplayItem_pad s1 (spaceLength - 1) else s1)"
  by pat_completeness auto
termination
  by (relation "measure (\<lambda>(s, spaceLength). spaceLength)") auto

text \<open>\<open>spaceLength\<close> is an \<^verbatim>\<open>unsigned short\<close>: the difference is taken modulo \<open>2 ^ 16\<close>.\<close>

definition shellDisplayItem :: "shell \<Rightarrow> nat \<Rightarrow> fault + shell" where
  "shellDisplayItem s index =
     bindE (table_at (commandBase s) index) (\<lambda>c.
       let (n, s1) = shellDisplay s (name c);
           spaceLength = nat ((22 - int n) mod 65536);
           spaceLength' = (if spaceLength > 0 then spaceLength else 4);
           s2 = shellDisplayItem_pad s1 spaceLength';
           s3 = display s2 ''--'';
           s4 = display s3 (desc c)
       in Inr (display s4 CRLF))"

text \<open>
  Modelled from the spec: \<^verbatim>\<open>shellGetCurrent\<close> and the instance registry are outside
  \<^verbatim>\<open>shell.c\<close>. The spec: ``\<open>isActive\<close>: true only during synchronous execution of a
  dispatched command handler; lets handler code resolve `current shell' ''. With the one
  instance of this model, the current shell is this one while it is active.
\<close>

definition shellGetCurrent :: "shell \<Rightarrow> shell option" where
  "shellGetCurrent s = (if isActive s then Some s else None)"

text \<open>\<^verbatim>\<open>for (unsigned short i = 0; i < shell->commandNumber; i++) shellDisplayItem(shell, i);\<close>\<close>

function shellHelp_list :: "shell \<Rightarrow> nat \<Rightarrow> nat \<Rightarrow> fault + shell" where
  "shellHelp_list s i n =
     (if i < n
      then bindE (shellDisplayItem s i) (\<lambda>s1. shellHelp_list s1 (Suc i) n)
      else Inr s)"
  by pat_completeness auto
termination
  by (relation "measure (\<lambda>(s, i, n). n - i)") auto

text \<open>
  The lookup loops of \<^verbatim>\<open>shellHelp\<close> and \<^verbatim>\<open>shellEnter\<close> count with an \<^verbatim>\<open>unsigned char\<close>:
  after entry 255 the counter is 0 again, and with more than 255 commands and no match
  the loop repeats the same scan for ever (\<open>NoReturn\<close>).
\<close>

function shellHelp_find :: "shell \<Rightarrow> string \<Rightarrow> nat \<Rightarrow> fault + shell" where
  "shellHelp_find s arg i =
     (if i < commandNumber s then
        bindE (table_at (commandBase s) i) (\<lambda>c.
        bindE (strcmp arg (lit (name c))) (\<lambda>r.
          if r = 0 then
            (let s1 = display s ''command help --'';
                 s2 = display s1 (name c);
                 s3 = display s2 ('':'' @ CRLF);
                 s4 = display s3 (desc c);
                 s5 = display s4 CRLF
             in case help_text c of
                  Some h \<Rightarrow> Inr (display (display s5 h) CRLF)
                | None \<Rightarrow> Inr s5)
          else if i = 255 then Inl NoReturn
          else shellHelp_find s arg (Suc i)))
      else Inr (display s TEXT_CMD_NONE))"
  by pat_completeness auto
termination
  by (relation "measure (\<lambda>(s, arg, i). commandNumber s - i)") auto

text \<open>\<open>argv\<close> is the list of the strings the argument pointers point to.\<close>

definition shellHelp :: "config \<Rightarrow> shell \<Rightarrow> nat \<Rightarrow> string list \<Rightarrow> fault + shell" where
  "shellHelp cfg s0 argc argv =
     (case shellGetCurrent s0 of
        None \<Rightarrow> Inr s0
      | Some s \<Rightarrow>
          if \<not> SHELL_LONG_HELP cfg \<or> argc = 1 then
            shellHelp_list (display s TEXT_FUN_LIST) 0 (commandNumber s)
          else if argc = 2 then
            bindE (table_at argv 1) (\<lambda>arg. shellHelp_find s arg 0)
          else Inr s)"

text \<open>\<^verbatim>\<open>shellClear\<close> writes the sequence that clears the screen and homes the cursor.\<close>

definition shellClear :: "shell \<Rightarrow> shell" where
  "shellClear s0 =
     (case shellGetCurrent s0 of
        None \<Rightarrow> s0
      | Some s \<Rightarrow> display s [CHR 0x1B, CHR ''['', CHR ''2'', CHR ''J'',
                              CHR 0x1B, CHR ''['', CHR ''1'', CHR ''H''])"

section \<open>Functions of the application\<close>

text \<open>
  Command handlers, key functions of the application, \<^verbatim>\<open>shellExtRun\<close>,
  \<^verbatim>\<open>shellDisplayReturn\<close> and the tick source \<^verbatim>\<open>SHELL_GET_TICK()\<close> are not in
  \<^verbatim>\<open>shell.c\<close>: they are parameters. A handler is called with the shell whose
  \<open>param\<close> and \<open>buffer\<close> hold its arguments, and may change the shell.
  \<open>SHELL_GET_TICK\<close> is the value the tick source yields during one call of
  \<^verbatim>\<open>shellTab\<close>, the same at both of its reads.
\<close>

record env =
  call_function :: "nat \<Rightarrow> nat \<Rightarrow> shell \<Rightarrow> fault + (int \<times> shell)"
  shellExtRun :: "nat \<Rightarrow> nat \<Rightarrow> shell \<Rightarrow> fault + (int \<times> shell)"
  shellDisplayReturn :: "shell \<Rightarrow> int \<Rightarrow> shell"
  call_key :: "nat \<Rightarrow> shell \<Rightarrow> fault + shell"
  SHELL_GET_TICK :: int

section \<open>Dispatcher\<close>

text \<open>\<^verbatim>\<open>shell->param[k] = p\<close> and the string \<^verbatim>\<open>shell->param[k]\<close> points to.\<close>

definition param_set :: "nat option list \<Rightarrow> nat \<Rightarrow> nat \<Rightarrow> fault + nat option list" where
  "param_set p k off = (if k < length p then Inr (p[k := Some off]) else Inl (ParamIndex k))"

definition argv_at :: "shell \<Rightarrow> nat \<Rightarrow> fault + string" where
  "argv_at s k =
     (if k < length (param s)
      then (case param s ! k of
              Some off \<Rightarrow> Inr (drop off (buffer s))
            | None \<Rightarrow> Inl StringOverrun)
      else Inl (ParamIndex k))"

definition argv_all :: "shell \<Rightarrow> string list" where
  "argv_all s = map (\<lambda>p. case p of Some off \<Rightarrow> drop off (buffer s) | None \<Rightarrow> []) (param s)"

text \<open>
  The tokenizing loop of \<^verbatim>\<open>shellEnter\<close>, from counter \<open>i\<close> on; \<open>n\<close> is \<^verbatim>\<open>shell->length\<close>,
  which the loop does not change. \<open>paramCount\<close> is an \<^verbatim>\<open>unsigned char\<close>.
\<close>

function shellEnter_loop ::
  "bool \<Rightarrow> nat \<Rightarrow> nat \<Rightarrow> bool \<Rightarrow> bool \<Rightarrow> nat \<Rightarrow> string \<Rightarrow> nat option list
     \<Rightarrow> fault + (string \<times> nat option list \<times> nat)" where
  "shellEnter_loop auto_prase n i quotes record_flag paramCount buf par =
     (if i < n then
        bindE (rd buf i) (\<lambda>c.
          if (quotes \<or> (c \<noteq> SPC \<and> c \<noteq> CHR 0x09 \<and> c \<noteq> CHR '','')) \<and> c \<noteq> NUL then
            (if c = CHR 0x22 \<and> \<not> auto_prase then
               bindE (wr buf i NUL) (\<lambda>buf'.
                 shellEnter_loop auto_prase n (Suc i) (\<not> quotes) record_flag paramCount buf' par)
             else
               bindE (if record_flag then param_set par paramCount i else Inr par) (\<lambda>par'.
                 shellEnter_loop auto_prase n
                   (if c = CHR 0x5C \<and> c \<noteq> NUL then Suc (Suc i) else Suc i)
                   (if c = CHR 0x22 then \<not> quotes else quotes)
                   False
                   (if record_flag then (paramCount + 1) mod 256 else paramCount)
                   buf par'))
          else
            bindE (wr buf i NUL) (\<lambda>buf'.
              shellEnter_loop auto_prase n (Suc i) quotes True paramCount buf' par))
      else Inr (buf, par, paramCount))"
  by pat_completeness auto
termination
  by (relation "measure (\<lambda>(a, n, i, q, r, pc, buf, par). n - i)") auto

text \<open>The command lookup of \<^verbatim>\<open>shellEnter\<close>; the result carries \<open>runFlag\<close>.\<close>

function shellEnter_run ::
  "env \<Rightarrow> config \<Rightarrow> shell \<Rightarrow> nat \<Rightarrow> nat \<Rightarrow> fault + (bool \<times> shell)" where
  "shellEnter_run env cfg s paramCount i =
     (if i < commandNumber s then
        bindE (table_at (commandBase s) i) (\<lambda>c.
        bindE (argv_at s 0) (\<lambda>arg0.
        bindE (strcmp arg0 (lit (name c))) (\<lambda>r.
          if r = 0 then
            bindE ((if SHELL_AUTO_PRASE cfg then shellExtRun env else call_function env)
                     (function_id c) paramCount (s\<lparr>isActive := True\<rparr>)) (\<lambda>(returnValue, s1).
              let s2 = s1\<lparr>isActive := False\<rparr> in
              Inr (True, if SHELL_DISPLAY_RETURN cfg
                         then shellDisplayReturn env s2 returnValue else s2))
          else if i = 255 then Inl NoReturn
          else shellEnter_run env cfg s paramCount (Suc i))))
      else Inr (False, s))"
  by pat_completeness auto
termination
  by (relation "measure (\<lambda>(env, cfg, s, pc, i). commandNumber s - i)") auto

definition shellEnter :: "env \<Rightarrow> config \<Rightarrow> shell \<Rightarrow> fault + shell" where
  "shellEnter env cfg s =
     (if length_sh s = 0 then Inr (display s (command s))
      else
        bindE (wr (buffer s) (length_sh s) NUL) (\<lambda>b.
        bindE (shellHistoryAdd cfg (s\<lparr>buffer := b, length_sh := length_sh s + 1\<rparr>)) (\<lambda>s1.
        bindE (shellEnter_loop (SHELL_AUTO_PRASE cfg) (length_sh s1) 0 False True 0
                 (buffer s1) (param s1)) (\<lambda>(b2, p2, paramCount).
          let s2 = s1\<lparr>buffer := b2, param := p2, length_sh := 0, cursor := 0\<rparr> in
          if paramCount = 0 then Inr (display s2 (command s2))
          else
            (let s3 = display s2 CRLF in
             bindE (argv_at s3 0) (\<lambda>arg0.
             bindE (strcmp arg0 (lit ''help'')) (\<lambda>r.
               if r = 0 then
                 bindE (shellHelp cfg (s3\<lparr>isActive := True\<rparr>) paramCount (argv_all s3)) (\<lambda>s4.
                   let s5 = s4\<lparr>isActive := False\<rparr> in
                   Inr (display s5 (command s5)))
               else
                 bindE (shellEnter_run env cfg s3 paramCount 0) (\<lambda>(runFlag, s4).
                   let s5 = (if \<not> runFlag then display s4 TEXT_CMD_NONE else s4) in
                   Inr (display s5 (command s5))))))))))"

text \<open>
  The tokens a handler receives after the loop: the strings at the first \<open>paramCount\<close>
  entries of \<open>param\<close>.
\<close>

definition tokens :: "string \<Rightarrow> nat option list \<Rightarrow> nat \<Rightarrow> (fault + string) list" where
  "tokens buf par paramCount =
     map (\<lambda>p. case p of Some off \<Rightarrow> cstring (drop off buf) | None \<Rightarrow> Inl StringOverrun)
       (take paramCount par)"

section \<open>Completion\<close>

text \<open>
  The matching loop of \<^verbatim>\<open>shellTab\<close>, from counter \<open>i\<close> on; \<open>n\<close> is
  \<^verbatim>\<open>shell->commandNumber\<close>, which the loop does not change. The result carries
  \<open>maxMatch\<close>, \<open>lastMatchIndex\<close> and \<open>matchNum\<close>.
\<close>

function shellTab_loop ::
  "shell \<Rightarrow> nat \<Rightarrow> nat \<Rightarrow> nat \<Rightarrow> nat \<Rightarrow> nat \<Rightarrow> fault + (nat \<times> nat \<times> nat \<times> shell)" where
  "shellTab_loop s n i maxMatch lastMatchIndex matchNum =
     (if i < n then
        bindE (table_at (commandBase s) i) (\<lambda>c.
        bindE (shellStringCompare (buffer s) (lit (name c))) (\<lambda>m.
          if m = length_sh s then
            (if matchNum \<noteq> 0 then
               (let s1 = (if matchNum = 1 then display s CRLF else s) in
                bindE (shellDisplayItem s1 lastMatchIndex) (\<lambda>s2.
                bindE (table_at (commandBase s2) lastMatchIndex) (\<lambda>l.
                bindE (shellStringCompare (lit (name l)) (lit (name c))) (\<lambda>len.
                  shellTab_loop s2 n (Suc i)
                    (if maxMatch > len then len else maxMatch) i (matchNum + 1)))))
             else shellTab_loop s n (Suc i) maxMatch i (matchNum + 1))
          else shellTab_loop s n (Suc i) maxMatch lastMatchIndex matchNum))
      else Inr (maxMatch, lastMatchIndex, matchNum, s))"
  by pat_completeness auto
termination
  by (relation "measure (\<lambda>(s, n, i, mm, l, mn). n - i)") auto

text \<open>
  \<^verbatim>\<open>for (short i = shell->length; i >= 0; i--) buffer[i + 5] = buffer[i];\<close>
  The last argument is the number of iterations left, \<open>i + 1\<close>.
\<close>

fun shellTab_shift :: "string \<Rightarrow> nat \<Rightarrow> fault + string" where
  "shellTab_shift buf 0 = Inr buf"
| "shellTab_shift buf (Suc i) =
     bindE (rd buf i) (\<lambda>c.
     bindE (wr buf (i + 5) c) (\<lambda>buf'.
       shellTab_shift buf' i))"

text \<open>The block of \<^verbatim>\<open>shellTab\<close> under \<^verbatim>\<open>#if SHELL_LONG_HELP == 1\<close>.\<close>

definition shellTab_longHelp :: "env \<Rightarrow> config \<Rightarrow> shell \<Rightarrow> nat \<Rightarrow> fault + shell" where
  "shellTab_longHelp env cfg s matchNum =
     (if SHELL_LONG_HELP cfg \<and> SHELL_GET_TICK env \<noteq> 0 \<and> matchNum = 1 \<and> tabFlag s \<and>
         tick_elapsed_less cfg (SHELL_GET_TICK env) (activeTime s) (SHELL_DOUBLE_CLICK_TIME cfg)
      then
        (let s1 = shellClearLine s in
         bindE (shellTab_shift (buffer s1) (Suc (length_sh s1))) (\<lambda>b1.
         bindE (shellStringCopy b1 (lit ''help'')) (\<lambda>(b2, count).
         bindE (wr b2 4 SPC) (\<lambda>b3.
           let s2 = s1\<lparr>buffer := b3, length_sh := length_sh s1 + 5\<rparr>;
               s3 = s2\<lparr>cursor := length_sh s2\<rparr>
           in bindE (cstring (buffer s3)) (\<lambda>line. Inr (display s3 line))))))
      else Inr s)"

definition shellTab :: "env \<Rightarrow> config \<Rightarrow> shell \<Rightarrow> fault + shell" where
  "shellTab env cfg s =
     (if length_sh s \<noteq> 0 then
        bindE (wr (buffer s) (length_sh s) NUL) (\<lambda>b.
        bindE (shellTab_loop (s\<lparr>buffer := b\<rparr>) (commandNumber s) 0
                 (SHELL_COMMAND_MAX_LENGTH cfg) 0 0) (\<lambda>(maxMatch, lastMatchIndex, matchNum, s1).
          if matchNum = 0 then Inr s1
          else
            (let s2 = (if matchNum = 1 then shellClearLine s1 else s1) in
             bindE (table_at (commandBase s2) lastMatchIndex) (\<lambda>l.
             bindE (shellStringCopy (buffer s2) (lit (name l))) (\<lambda>(b2, count).
               let s3 = s2\<lparr>buffer := b2, length_sh := count\<rparr> in
               bindE (if matchNum > 1
                      then bindE (shellDisplayItem s3 lastMatchIndex) (\<lambda>s4.
                             Inr ((display s4 (command s4))\<lparr>length_sh := maxMatch\<rparr>))
                      else Inr s3) (\<lambda>s5.
               bindE (wr (buffer s5) (length_sh s5) NUL) (\<lambda>b3.
                 let s6 = s5\<lparr>buffer := b3, cursor := length_sh s5\<rparr> in
                 bindE (cstring (buffer s6)) (\<lambda>line.
                   shellTab_longHelp env cfg (display s6 line) matchNum))))))))
      else
        bindE (shellHelp cfg (s\<lparr>isActive := True\<rparr>) 1 []) (\<lambda>s1.
          let s2 = s1\<lparr>isActive := False\<rparr> in
          shellTab_longHelp env cfg (display s2 (command s2)) 0))"

section \<open>Escape state machine\<close>

definition shellAnsiStart :: "shell \<Rightarrow> shell" where
  "shellAnsiStart s = s\<lparr>inputMode := SHELL_ANSI_ESC\<rparr>"

definition shellAnsi :: "config \<Rightarrow> shell \<Rightarrow> char \<Rightarrow> fault + shell" where
  "shellAnsi cfg s data =
     (case inputMode s of
        SHELL_ANSI_CSI \<Rightarrow>
          bindE
            (if data = CHR 0x41 then shellHistory cfg s 0
             else if data = CHR 0x42 then shellHistory cfg s 1
             else if data = CHR 0x43 then
               (if cursor s < length_sh s
                then bindE (rd (buffer s) (cursor s)) (\<lambda>c.
                       Inr ((shellDisplayByte s c)\<lparr>cursor := cursor s + 1\<rparr>))
                else Inr s)
             else if data = CHR 0x44 then
               (if cursor s > 0
                then Inr ((shellDisplayByte s BS)\<lparr>cursor := cursor s - 1\<rparr>)
                else Inr s)
             else Inr s)
            (\<lambda>s1. Inr (s1\<lparr>inputMode := SHELL_IN_NORMAL\<rparr>))
      | SHELL_ANSI_ESC \<Rightarrow>
          (if data = CHR 0x5B then Inr (s\<lparr>inputMode := SHELL_ANSI_CSI\<rparr>)
           else Inr (s\<lparr>inputMode := SHELL_IN_NORMAL\<rparr>))
      | SHELL_IN_NORMAL \<Rightarrow> Inr s)"

section \<open>Key-action dispatch\<close>

text \<open>
  Modelled from the spec: the key codes are macros of the missing header. The spec names
  the keys (``Line-Feed/Carriage-Return, Tab, Backspace/Delete, Escape'') and gives
  \<open>0x1B\<close> for Escape; the others are the ASCII codes of the keys named.
\<close>

definition SHELL_KEY_LF :: char where "SHELL_KEY_LF = CHR 0x0A"
definition SHELL_KEY_CR :: char where "SHELL_KEY_CR = CHR 0x0D"
definition SHELL_KEY_TAB :: char where "SHELL_KEY_TAB = CHR 0x09"
definition SHELL_KEY_BACKSPACE :: char where "SHELL_KEY_BACKSPACE = CHR 0x08"
definition SHELL_KEY_DELETE :: char where "SHELL_KEY_DELETE = CHR 0x7F"
definition SHELL_KEY_ESC :: char where "SHELL_KEY_ESC = CHR 0x1B"

definition shellDefaultKeyFunctionList :: "key_def list" where
  "shellDefaultKeyFunctionList =
     [(SHELL_KEY_LF, Some FnShellEnter),
      (SHELL_KEY_CR, Some FnShellEnter),
      (SHELL_KEY_TAB, Some FnShellTab),
      (SHELL_KEY_BACKSPACE, Some FnShellBackspace),
      (SHELL_KEY_DELETE, Some FnShellBackspace),
      (SHELL_KEY_ESC, Some FnShellAnsiStart)]"

text \<open>The call \<^verbatim>\<open>keyFunction(shell)\<close> through a function pointer.\<close>

fun keyFunction :: "env \<Rightarrow> config \<Rightarrow> key_fn \<Rightarrow> shell \<Rightarrow> fault + shell" where
  "keyFunction env cfg FnShellEnter s = shellEnter env cfg s"
| "keyFunction env cfg FnShellTab s = shellTab env cfg s"
| "keyFunction env cfg FnShellBackspace s = shellBackspace s"
| "keyFunction env cfg FnShellAnsiStart s = Inr (shellAnsiStart s)"
| "keyFunction env cfg (FnUser k) s = call_key env k s"

text \<open>
  The two table loops of \<^verbatim>\<open>shellHandler\<close>, from counter \<open>i\<close> on. \<open>bound\<close> reads the
  loop bound from the current shell: \<^verbatim>\<open>shell->keyFuncNumber\<close> for the table of the
  instance, the size of the table for the default one. The counter is a \<^verbatim>\<open>short\<close>: a
  loop that would take it past 32767 is a fault. Besides \<open>keyDefFind\<close> and the shell,
  the loop state carries the key functions called so far, in the order of the calls;
  this list is not a variable of the C function.
\<close>

function shellHandler_loop ::
  "env \<Rightarrow> config \<Rightarrow> key_def list \<Rightarrow> (shell \<Rightarrow> nat) \<Rightarrow> char \<Rightarrow> nat
     \<Rightarrow> bool \<times> key_fn list \<times> shell \<Rightarrow> fault + (bool \<times> key_fn list \<times> shell)" where
  "shellHandler_loop env cfg base bound data i (keyDefFind, calls, s) =
     (if i < bound s then
        (if 32767 \<le> i then Inl CounterOverflow
         else
           bindE (table_at base i) (\<lambda>e.
             if fst e = data then
               (case snd e of
                  Some f \<Rightarrow>
                    bindE (keyFunction env cfg f s) (\<lambda>s1.
                      shellHandler_loop env cfg base bound data (Suc i) (True, calls @ [f], s1))
                | None \<Rightarrow>
                    shellHandler_loop env cfg base bound data (Suc i) (True, calls, s))
             else shellHandler_loop env cfg base bound data (Suc i) (keyDefFind, calls, s)))
      else Inr (keyDefFind, calls, s))"
  by pat_completeness auto
termination
  by (relation "measure (\<lambda>(env, cfg, base, bound, data, i, st). 32767 - i)") auto

text \<open>\<^verbatim>\<open>shellHandler\<close>; the result carries the key functions it called, in order.\<close>

definition shellHandler :: "env \<Rightarrow> config \<Rightarrow> shell \<Rightarrow> char \<Rightarrow> fault + (key_fn list \<times> shell)" where
  "shellHandler env cfg s data =
     bindE
       (if inputMode s = SHELL_IN_NORMAL then
          bindE (shellHandler_loop env cfg (keyFuncBase s) keyFuncNumber data 0 (False, [], s))
            (\<lambda>(find1, calls1, s1).
          bindE (if \<not> find1
                 then shellHandler_loop env cfg shellDefaultKeyFunctionList
                        (\<lambda>s'. length shellDefaultKeyFunctionList) data 0 (find1, calls1, s1)
                 else Inr (find1, calls1, s1))
            (\<lambda>(find2, calls2, s2).
          if \<not> find2 then bindE (shellNormal cfg s2 data) (\<lambda>s3. Inr (calls2, s3))
          else Inr (calls2, s2)))
        else bindE (shellAnsi cfg s data) (\<lambda>s1. Inr ([], s1)))
       (\<lambda>(calls, s4).
          Inr (calls, if SHELL_LONG_HELP cfg then s4\<lparr>tabFlag := (data = CHR 0x09)\<rparr> else s4))"

section \<open>Initialisation\<close>

text \<open>
  \<^verbatim>\<open>shellInit\<close> sets the fields below and leaves every other field of the object as it
  finds it. \<^verbatim>\<open>shellAdd\<close> enters the instance into the registry, which is not modelled.
\<close>

definition shellInit :: "config \<Rightarrow> shell \<Rightarrow> shell" where
  "shellInit cfg s =
     (let s1 = s\<lparr>length_sh := 0, cursor := 0, historyCount := 0, historyFlag := 0,
                 historyOffset := 0, inputMode := SHELL_IN_NORMAL, tabFlag := False,
                 command := SHELL_DEFAULT_COMMAND cfg, isActive := False\<rparr>;
          s2 = display s1 (TEXT_INFO cfg);
          s3 = display s2 (command s2)
      in s3\<lparr>commandBase := shellDefaultCommandList cfg,
            commandNumber := length (shellDefaultCommandList cfg)\<rparr>)"

definition shellSetKeyFuncList :: "shell \<Rightarrow> key_def list \<Rightarrow> nat \<Rightarrow> shell" where
  "shellSetKeyFuncList s base sz = s\<lparr>keyFuncBase := base, keyFuncNumber := sz\<rparr>"

text \<open>
  Modelled from the spec: the object before \<^verbatim>\<open>shellInit\<close> (``instance created and
  zero-initialized at startup''), with the array sizes of the configuration: every byte
  zero, every pointer null, every count zero.
\<close>

definition shell_zero :: "config \<Rightarrow> shell" where
  "shell_zero cfg =
     \<lparr>command = [], buffer = replicate (SHELL_COMMAND_MAX_LENGTH cfg) NUL,
      length_sh = 0, cursor = 0,
      param = replicate (SHELL_PARAMETER_MAX_NUMBER cfg) None,
      history = replicate (SHELL_HISTORY_MAX_NUMBER cfg)
                  (replicate (SHELL_COMMAND_MAX_LENGTH cfg) NUL),
      historyCount = 0, historyFlag = 0, historyOffset = 0,
      commandBase = [], commandNumber = 0, keyFuncBase = [], keyFuncNumber = 0,
      inputMode = SHELL_IN_NORMAL, tabFlag = False, isActive = False, activeTime = 0,
      out = []\<rparr>"

section \<open>Definitions for the properties\<close>

text \<open>
  A sequence of editing operations: \<open>Insert data\<close> is \<^verbatim>\<open>shellNormal(shell, data)\<close>,
  \<open>DeleteBackward\<close> is \<^verbatim>\<open>shellBackspace(shell)\<close>.
\<close>

datatype edit_op = Insert char | DeleteBackward

fun edit_step :: "config \<Rightarrow> shell \<Rightarrow> edit_op \<Rightarrow> fault + shell" where
  "edit_step cfg s (Insert data) = shellNormal cfg s data"
| "edit_step cfg s DeleteBackward = shellBackspace s"

fun edit_run :: "config \<Rightarrow> shell \<Rightarrow> edit_op list \<Rightarrow> fault + shell" where
  "edit_run cfg s [] = Inr s"
| "edit_run cfg s (x # xs) = bindE (edit_step cfg s x) (\<lambda>s'. edit_run cfg s' xs)"

text \<open>
  \<open>line_ok\<close> is the invariant of the line editor as the specification words it:
  \<open>cursor \<le> length < capacity\<close> and \<open>buffer[length] == 0\<close>. \<open>editor_ok\<close> is the stronger
  property the editor keeps: the buffer has the configured size and every byte from
  index \<open>length\<close> on is zero.
\<close>

definition line_ok :: "config \<Rightarrow> shell \<Rightarrow> bool" where
  "line_ok cfg s \<longleftrightarrow>
     cursor s \<le> length_sh s \<and> length_sh s < SHELL_COMMAND_MAX_LENGTH cfg \<and>
     rd (buffer s) (length_sh s) = Inr NUL"

definition editor_ok :: "config \<Rightarrow> shell \<Rightarrow> bool" where
  "editor_ok cfg s \<longleftrightarrow>
     length (buffer s) = SHELL_COMMAND_MAX_LENGTH cfg \<and>
     cursor s \<le> length_sh s \<and> length_sh s < SHELL_COMMAND_MAX_LENGTH cfg \<and>
     list_all (\<lambda>c. c = NUL) (drop (length_sh s) (buffer s))"

text \<open>
  A configuration for concrete runs, and one with a four-byte line buffer. The
  application functions of \<open>example_env\<close> do nothing.
\<close>

definition example_config :: config where
  "example_config =
     \<lparr>SHELL_COMMAND_MAX_LENGTH = 50, SHELL_HISTORY_MAX_NUMBER = 5,
      SHELL_PARAMETER_MAX_NUMBER = 8, SHELL_AUTO_PRASE = False, SHELL_LONG_HELP = False,
      SHELL_DISPLAY_RETURN = False, SHELL_DOUBLE_CLICK_TIME = 200,
      tick_elapsed_less = (\<lambda>t a d. (t - a) mod 2 ^ 32 < d),
      SHELL_DEFAULT_COMMAND = CRLF @ ''letter>>'', TEXT_INFO = ''Letter shell'' @ CRLF,
      shellDefaultCommandList = []\<rparr>"

definition small_config :: config where
  "small_config = example_config\<lparr>SHELL_COMMAND_MAX_LENGTH := 4\<rparr>"

definition example_env :: env where
  "example_env =
     \<lparr>call_function = (\<lambda>f argc s. Inr (0, s)), shellExtRun = (\<lambda>f argc s. Inr (0, s)),
      shellDisplayReturn = (\<lambda>s r. s), call_key = (\<lambda>k s. Inr s), SHELL_GET_TICK = 0\<rparr>"

text \<open>The line \<open>ab\<close> with the cursor between its two bytes.\<close>

definition example_line :: shell where
  "example_line =
     (shellInit example_config (shell_zero example_config))
       \<lparr>buffer := ''ab'' @ replicate 48 NUL, length_sh := 2, cursor := 1\<rparr>"

text \<open>A full line \<open>abc\<close> in the four-byte buffer, with the cursor after its first byte.\<close>

definition full_line :: shell where
  "full_line =
     (shellInit small_config (shell_zero small_config))
       \<lparr>buffer := ''abc'' @ [NUL], length_sh := 3, cursor := 1\<rparr>"

text \<open>Delivering a sequence of bytes: one call of \<^verbatim>\<open>shellHandler\<close> for each.\<close>

fun shellHandler_all :: "env \<Rightarrow> config \<Rightarrow> shell \<Rightarrow> string \<Rightarrow> fault + shell" where
  "shellHandler_all env cfg s [] = Inr s"
| "shellHandler_all env cfg s (data # rest) =
     bindE (shellHandler env cfg s data) (\<lambda>(calls, s'). shellHandler_all env cfg s' rest)"

text \<open>
  A ring of five slots of four bytes whose write index is at the last slot, with the
  line \<open>e\<close> in the buffer, terminated as \<^verbatim>\<open>shellEnter\<close> passes it to
  \<^verbatim>\<open>shellHistoryAdd\<close>.
\<close>

definition wrapping_ring :: shell where
  "wrapping_ring =
     (shellInit small_config (shell_zero small_config))
       \<lparr>history := [''a'' @ [NUL, NUL, NUL], ''b'' @ [NUL, NUL, NUL], ''c'' @ [NUL, NUL, NUL],
                    ''d'' @ [NUL, NUL, NUL], [NUL, NUL, NUL, NUL]],
        historyFlag := 4, historyCount := 4,
        buffer := ''e'' @ [NUL, NUL, NUL], length_sh := 2, cursor := 1\<rparr>"

text \<open>
  The slot the latest commit wrote: \<open>historyFlag\<close> is the next write slot of the ring,
  so it is the slot before it, cyclically.
\<close>

definition history_latest :: "config \<Rightarrow> shell \<Rightarrow> nat" where
  "history_latest cfg s =
     (if historyFlag s = 0 then SHELL_HISTORY_MAX_NUMBER cfg - 1 else nat (historyFlag s) - 1)"

text \<open>
  The key functions of the entries of a table that match a byte, in table order (an
  entry with a null pointer matches but has no function).
\<close>

fun key_matches :: "key_def list \<Rightarrow> char \<Rightarrow> key_fn list" where
  "key_matches [] data = []"
| "key_matches (e # es) data =
     (if fst e = data
      then (case snd e of Some f \<Rightarrow> f # key_matches es data | None \<Rightarrow> key_matches es data)
      else key_matches es data)"

text \<open>An instance whose table overrides the Tab key with a function of the application.\<close>

definition override_shell :: shell where
  "override_shell =
     shellSetKeyFuncList (shellInit example_config (shell_zero example_config))
       [(SHELL_KEY_TAB, Some (FnUser 0))] 1"

text \<open>An instance with the two history entries \<open>ls\<close> and \<open>cd\<close>, committed in this order.\<close>

definition recall_shell :: shell where
  "recall_shell =
     (shellInit small_config (shell_zero small_config))
       \<lparr>history := [''ls'' @ [NUL, NUL], ''cd'' @ [NUL, NUL], [NUL, NUL, NUL, NUL],
                    [NUL, NUL, NUL, NUL], [NUL, NUL, NUL, NUL]],
        historyFlag := 2, historyCount := 2\<rparr>"

text \<open>
  The tokenizing part of \<^verbatim>\<open>shellEnter\<close> on a line of \<open>len\<close> bytes: the terminator is
  written at \<open>len\<close>, the loop runs to \<open>len + 1\<close>, and the result is \<open>paramCount\<close> with
  the strings at the recorded token starts. (The history commit between the two does not
  touch \<open>buffer\<close>, \<open>length\<close> or \<open>param\<close>.)
\<close>

definition shellEnter_tokens ::
  "bool \<Rightarrow> string \<Rightarrow> nat \<Rightarrow> nat option list \<Rightarrow> fault + (nat \<times> (fault + string) list)" where
  "shellEnter_tokens auto_prase buf len par =
     bindE (wr buf len NUL) (\<lambda>b.
     bindE (shellEnter_loop auto_prase (len + 1) 0 False True 0 b par) (\<lambda>(b2, p2, paramCount).
       Inr (paramCount, tokens b2 p2 paramCount)))"

text \<open>The six bytes \<^verbatim>\<open>a\ b c\<close>.\<close>

definition escaped_line :: string where
  "escaped_line = [CHR ''a'', CHR 0x5C, CHR '' '', CHR ''b'', CHR '' '', CHR ''c'']"

text \<open>
  The command table \<open>status\<close>, \<open>stop\<close>, \<open>start\<close>, an instance with this table and
  \<open>st\<close> in its buffer, and a row of the command listing: the name, padding, \<open>--\<close>, the
  description and a line end.
\<close>

definition st_commands :: "string \<Rightarrow> string \<Rightarrow> string \<Rightarrow> command_def list" where
  "st_commands d1 d2 d3 =
     [\<lparr>name = ''status'', function_id = 0, desc = d1, help_text = None\<rparr>,
      \<lparr>name = ''stop'', function_id = 1, desc = d2, help_text = None\<rparr>,
      \<lparr>name = ''start'', function_id = 2, desc = d3, help_text = None\<rparr>]"

definition st_shell :: "shell \<Rightarrow> string \<Rightarrow> string \<Rightarrow> string \<Rightarrow> string \<Rightarrow> shell" where
  "st_shell s0 d1 d2 d3 rest =
     s0\<lparr>commandBase := st_commands d1 d2 d3, commandNumber := 3,
        buffer := ''st'' @ rest, length_sh := 2\<rparr>"

definition help_row :: "string \<Rightarrow> nat \<Rightarrow> string \<Rightarrow> string" where
  "help_row nm pad d = nm @ replicate pad SPC @ ''--'' @ d @ CRLF"

text \<open>
  What the line editor shows of a state: the buffer, the length, the cursor, and whether
  the invariant \<open>line_ok\<close> holds.
\<close>

definition editor_view :: "config \<Rightarrow> shell \<Rightarrow> string \<times> nat \<times> nat \<times> bool" where
  "editor_view cfg s = (buffer s, length_sh s, cursor s, line_ok cfg s)"

text \<open>
  Two states of the instance \<open>recall_shell\<close> that typing reaches. \<open>stale_line\<close> is the
  state after the line \<open>b\<close> with a leading space has been accepted: the tokenizer has
  zeroed the space, the length is 0 again and the byte \<open>b\<close> is still in the buffer.
  \<open>stale_mid\<close> is the state after \<open>abc\<close> has been accepted, \<open>x\<close> typed and the cursor
  moved left: the line is \<open>x\<close>, and \<open>bc\<close> of the accepted line follow it.
\<close>

definition stale_line :: shell where
  "stale_line = recall_shell\<lparr>buffer := [NUL, CHR ''b'', NUL, NUL], length_sh := 0, cursor := 0\<rparr>"

definition stale_mid :: shell where
  "stale_mid = recall_shell\<lparr>buffer := ''xbc'' @ [NUL], length_sh := 1, cursor := 0\<rparr>"

text \<open>An instance whose table has two entries for the Tab key.\<close>

definition override_pair :: shell where
  "override_pair =
     shellSetKeyFuncList (shellInit example_config (shell_zero example_config))
       [(SHELL_KEY_TAB, Some (FnUser 1)), (SHELL_KEY_TAB, Some (FnUser 0))] 2"

section \<open>Basic facts\<close>

declare displayBuffer_range.simps [simp del]
declare shellBackspace_shift.simps [simp del]
declare shellDisplayItem_pad.simps [simp del]
declare shellHelp_list.simps [simp del]
declare shellHelp_find.simps [simp del]
declare shellEnter_loop.simps [simp del]
declare shellEnter_run.simps [simp del]
declare shellTab_loop.simps [simp del]
declare shellHandler_loop.simps [simp del]

lemma bindE_Inr [simp]: "bindE (Inr x) f = f x"
  by (simp add: bindE_def)
lemma bindE_Inl [simp]: "bindE (Inl e) f = Inl e"
  by (simp add: bindE_def)

lemma rd_in [simp]: "i < length a \<Longrightarrow> rd a i = Inr (a ! i)"
  by (simp add: rd_def)
lemma wr_in [simp]: "i < length a \<Longrightarrow> wr a i c = Inr (a[i := c])"
  by (simp add: wr_def)

lemma displayByte_times_out: "displayByte_times s n c = s\<lparr>out := out s @ replicate n c\<rparr>"
  by (induction n arbitrary: s) (simp_all add: shellDisplayByte_def replicate_app_Cons_same)

lemma shellDelete_out: "shellDelete s n = s\<lparr>out := out s @ concat (replicate n [BS, SPC, BS])\<rparr>"
  by (induction n arbitrary: s) (simp_all add: display_def shellDisplay_def)

lemma displayBuffer_range_out:
  "n \<le> length (buffer s) \<Longrightarrow> i \<le> n \<Longrightarrow>
   displayBuffer_range s i n = Inr (s\<lparr>out := out s @ take (n - i) (drop i (buffer s))\<rparr>)"
proof (induction s i n rule: displayBuffer_range.induct)
  case (1 s i n)
  show ?case
  proof (cases "i < n")
    case True
    then have il: "i < length (buffer s)" using "1.prems" by simp
    have tk: "take (n - i) (drop i (buffer s)) = buffer s ! i # take (n - Suc i) (drop (Suc i) (buffer s))"
      using True il by (metis Cons_nth_drop_Suc Suc_diff_Suc take_Suc_Cons)
    have "displayBuffer_range s i n = displayBuffer_range (shellDisplayByte s (buffer s ! i)) (Suc i) n"
      using True il by (subst displayBuffer_range.simps) simp
    also have "\<dots> = Inr ((shellDisplayByte s (buffer s ! i))\<lparr>out := out (shellDisplayByte s (buffer s ! i)) @ take (n - Suc i) (drop (Suc i) (buffer (shellDisplayByte s (buffer s ! i))))\<rparr>)"
      using "1.IH"[OF True, of "buffer s ! i"] True il "1.prems" by (simp add: shellDisplayByte_def)
    finally show ?thesis using tk by (simp add: shellDisplayByte_def)
  next
    case False
    then show ?thesis using "1.prems" by (subst displayBuffer_range.simps) simp
  qed
qed

lemma shellNormal_shift_nth:
  "cur + k < length buf \<Longrightarrow>
   \<exists>b. shellNormal_shift buf cur k = Inr b \<and> length b = length buf \<and>
       (\<forall>j. b ! j = (if cur < j \<and> j \<le> cur + k then buf ! (j - 1) else buf ! j))"
proof (induction k arbitrary: buf)
  case 0
  then show ?case by auto
next
  case (Suc k)
  let ?b = "buf[cur + Suc k := buf ! (cur + k)]"
  have "cur + k < length ?b" using Suc.prems by simp
  from Suc.IH[OF this] obtain b where
    b: "shellNormal_shift ?b cur k = Inr b" "length b = length buf"
       "\<And>j. b ! j = (if cur < j \<and> j \<le> cur + k then ?b ! (j - 1) else ?b ! j)"
    by auto
  have "shellNormal_shift buf cur (Suc k) = Inr b"
    using Suc.prems b(1) by simp
  moreover have "\<forall>j. b ! j = (if cur < j \<and> j \<le> cur + Suc k then buf ! (j - 1) else buf ! j)"
    using Suc.prems by (auto simp: b(3) nth_list_update)
  ultimately show ?case using b(2) by blast
qed

lemma shellBackspace_shift_nth:
  "0 < cur \<Longrightarrow> cur + n \<le> length buf \<Longrightarrow> i \<le> n \<Longrightarrow>
   \<exists>b. shellBackspace_shift buf cur i n = Inr b \<and> length b = length buf \<and>
       (\<forall>j. b ! j = (if cur + i \<le> Suc j \<and> Suc j < cur + n then buf ! Suc j else buf ! j))"
proof (induction buf cur i n rule: shellBackspace_shift.induct)
  case (1 buf cur i n)
  show ?case
  proof (cases "i < n")
    case True
    let ?b = "buf[cur + i - 1 := buf ! (cur + i)]"
    have step: "shellBackspace_shift buf cur i n = shellBackspace_shift ?b cur (Suc i) n"
      using True "1.prems" by (subst shellBackspace_shift.simps) simp
    have "\<exists>b. shellBackspace_shift ?b cur (Suc i) n = Inr b \<and> length b = length ?b \<and>
       (\<forall>j. b ! j = (if cur + Suc i \<le> Suc j \<and> Suc j < cur + n then ?b ! Suc j else ?b ! j))"
    proof -
      have l: "cur + n \<le> length ?b" using "1.prems" by simp
      have i: "Suc i \<le> n" using True by simp
      note ih = "1.IH"[OF True]
      show ?thesis using ih[OF "1.prems"(1) l i] by simp
    qed
    then obtain b where
      b: "shellBackspace_shift ?b cur (Suc i) n = Inr b" "length b = length buf"
         "\<And>j. b ! j = (if cur + Suc i \<le> Suc j \<and> Suc j < cur + n then ?b ! Suc j else ?b ! j)"
      by auto
    have "\<forall>j. b ! j = (if cur + i \<le> Suc j \<and> Suc j < cur + n then buf ! Suc j else buf ! j)"
      using "1.prems" True by (auto simp: b(3) nth_list_update)
    then show ?thesis using step b(1,2) by simp
  next
    case False
    then have "shellBackspace_shift buf cur i n = Inr buf"
      by (subst shellBackspace_shift.simps) simp
    moreover have "i = n" using False "1.prems" by simp
    ultimately show ?thesis by auto
  qed
qed
lemma list_all_drop_nth:
  "list_all P (drop n xs) \<longleftrightarrow> (\<forall>j. n \<le> j \<and> j < length xs \<longrightarrow> P (xs ! j))"
proof -
  have "list_all P (drop n xs) \<longleftrightarrow> (\<forall>i < length xs - n. P (xs ! (n + i)))"
    by (simp add: list_all_length)
  also have "\<dots> \<longleftrightarrow> (\<forall>j. n \<le> j \<and> j < length xs \<longrightarrow> P (xs ! j))"
  proof (intro iffI allI impI)
    fix j assume h: "\<forall>i < length xs - n. P (xs ! (n + i))" and j: "n \<le> j \<and> j < length xs"
    then have "j - n < length xs - n" by arith
    with h have "P (xs ! (n + (j - n)))" by blast
    with j show "P (xs ! j)" by simp
  next
    fix i assume h: "\<forall>j. n \<le> j \<and> j < length xs \<longrightarrow> P (xs ! j)" and i: "i < length xs - n"
    then show "P (xs ! (n + i))" by simp
  qed
  finally show ?thesis .
qed

lemma shellNormal_append:
  assumes "data \<noteq> NUL" "length_sh s = cursor s"
      and "length_sh s + 1 < SHELL_COMMAND_MAX_LENGTH cfg"
      and "length (buffer s) = SHELL_COMMAND_MAX_LENGTH cfg"
  shows "shellNormal cfg s data =
           Inr (s\<lparr>buffer := (buffer s)[length_sh s := data], length_sh := length_sh s + 1,
                  cursor := cursor s + 1, out := out s @ [data]\<rparr>)"
  using assms by (simp add: shellNormal_def shellDisplayByte_def)

lemma shellNormal_mid:
  assumes "data \<noteq> NUL" "cursor s < length_sh s"
      and "length_sh s + 1 < SHELL_COMMAND_MAX_LENGTH cfg"
      and "length (buffer s) = SHELL_COMMAND_MAX_LENGTH cfg"
  shows "\<exists>b w. shellNormal cfg s data =
             Inr (s\<lparr>buffer := b, cursor := cursor s + 1, length_sh := length_sh s + 1,
                    out := w\<rparr>) \<and>
           length b = length (buffer s) \<and>
           (\<forall>j. b ! j = (if j = length_sh s + 1 then NUL
                         else if j = cursor s then data
                         else if cursor s < j \<and> j \<le> length_sh s then buffer s ! (j - 1)
                         else buffer s ! j))"
proof -
  let ?k = "nat (int (length_sh s) - int (cursor s))"
  have k: "cursor s + ?k = length_sh s" using assms(2) by simp
  then have "cursor s + ?k < length (buffer s)" using assms by simp
  from shellNormal_shift_nth[OF this] obtain b1 where
    b1: "shellNormal_shift (buffer s) (cursor s) ?k = Inr b1" "length b1 = length (buffer s)"
        "\<And>j. b1 ! j = (if cursor s < j \<and> j \<le> cursor s + ?k then buffer s ! (j - 1) else buffer s ! j)"
    by blast
  let ?b3 = "b1[cursor s := data, length_sh s + 1 := NUL]"
  let ?s1 = "s\<lparr>buffer := ?b3, cursor := cursor s + 1, length_sh := length_sh s + 1\<rparr>"
  have r: "shellNormal cfg s data = Inr (?s1\<lparr>out := out s @
                  take (Suc (length_sh s) - cursor s) (drop (cursor s) ?b3) @
                  replicate (nat (int (length_sh s) - int (cursor s))) BS\<rparr>)"
    using assms b1(1,2)
    by (simp add: shellNormal_def Let_def displayByte_times_out displayBuffer_range_out del: displayByte_times.simps)
  have p: "\<forall>j. ?b3 ! j = (if j = length_sh s + 1 then NUL
                         else if j = cursor s then data
                         else if cursor s < j \<and> j \<le> length_sh s then buffer s ! (j - 1)
                         else buffer s ! j)"
    using assms b1(2) k by (auto simp: nth_list_update b1(3))
  have l: "length ?b3 = length (buffer s)" using b1(2) by simp
  show ?thesis
    apply (rule exI[of _ ?b3])
    apply (rule exI)
    apply (intro conjI)
      apply (rule r)
     apply (rule l)
    apply (rule p)
    done
qed

lemma shellBackspace_end:
  assumes "0 < length_sh s" "cursor s = length_sh s" "length_sh s \<le> length (buffer s)"
  shows "shellBackspace s =
           Inr (s\<lparr>length_sh := length_sh s - 1, cursor := cursor s - 1,
                  buffer := (buffer s)[length_sh s - 1 := NUL],
                  out := out s @ [BS, SPC, BS]\<rparr>)"
  using assms by (simp add: shellBackspace_def Let_def display_def shellDisplay_def)

lemma shellBackspace_mid:
  assumes "0 < cursor s" "cursor s < length_sh s" "length_sh s \<le> length (buffer s)"
  shows "\<exists>b w. shellBackspace s =
             Inr (s\<lparr>buffer := b, length_sh := length_sh s - 1, cursor := cursor s - 1,
                    out := w\<rparr>) \<and>
           length b = length (buffer s) \<and>
           (\<forall>j. b ! j = (if j = length_sh s - 1 then NUL
                         else if cursor s \<le> Suc j \<and> Suc j < length_sh s then buffer s ! Suc j
                         else buffer s ! j))"
proof -
  let ?n = "nat (int (length_sh s) - int (cursor s))"
  have n: "cursor s + ?n = length_sh s" using assms(2) by simp
  have "\<exists>b. shellBackspace_shift (buffer s) (cursor s) 0 ?n = Inr b \<and> length b = length (buffer s) \<and>
       (\<forall>j. b ! j = (if cursor s + 0 \<le> Suc j \<and> Suc j < cursor s + ?n then buffer s ! Suc j else buffer s ! j))"
    by (rule shellBackspace_shift_nth) (use assms n in simp_all)
  then obtain b1 where
    b1: "shellBackspace_shift (buffer s) (cursor s) 0 ?n = Inr b1" "length b1 = length (buffer s)"
        "\<And>j. b1 ! j = (if cursor s \<le> Suc j \<and> Suc j < length_sh s then buffer s ! Suc j else buffer s ! j)"
    using n by auto
  let ?b2 = "b1[length_sh s - 1 := NUL]"
  let ?s2 = "s\<lparr>buffer := ?b2, length_sh := length_sh s - 1, cursor := cursor s - 1, out := out s @ [BS]\<rparr>"
  have r: "shellBackspace s = Inr (s\<lparr>buffer := ?b2, length_sh := length_sh s - 1, cursor := cursor s - 1, out := out s @ BS #
                  take (length_sh s - cursor s) (drop (cursor s - Suc 0) ?b2) @
                  SPC # replicate (nat (int (length_sh s) - int (cursor s) + 1)) BS\<rparr>)"
    using assms b1(1,2)
    by (simp add: shellBackspace_def Let_def displayByte_times_out shellDisplayByte_def displayBuffer_range_out del: displayByte_times.simps)
  have p: "\<forall>j. ?b2 ! j = (if j = length_sh s - 1 then NUL
                         else if cursor s \<le> Suc j \<and> Suc j < length_sh s then buffer s ! Suc j
                         else buffer s ! j)"
    using assms b1(2) by (auto simp: nth_list_update b1(3))
  have l: "length ?b2 = length (buffer s)" using b1(2) by simp
  show ?thesis
    apply (rule exI[of _ ?b2])
    apply (rule exI)
    apply (intro conjI)
      apply (rule r)
     apply (rule l)
    apply (rule p)
    done
qed


lemma cstring_takeWhile: "NUL \<in> set xs \<Longrightarrow> cstring xs = Inr (takeWhile (\<lambda>c. c \<noteq> NUL) xs)"
  by (induction xs) auto

lemma shellNormal_too_long:
  assumes "data \<noteq> NUL" "SHELL_COMMAND_MAX_LENGTH cfg \<le> length_sh s + 1"
      and "cstring (buffer s) = Inr line"
  shows "shellNormal cfg s data =
           Inr (s\<lparr>cursor := length_sh s,
                  out := out s @ TEXT_CMD_TOO_LONG @ command s @ line\<rparr>)"
  using assms by (simp add: shellNormal_def Let_def display_def shellDisplay_def)

lemma editor_ok_nth:
  "editor_ok cfg s \<longleftrightarrow>
     length (buffer s) = SHELL_COMMAND_MAX_LENGTH cfg \<and>
     cursor s \<le> length_sh s \<and> length_sh s < SHELL_COMMAND_MAX_LENGTH cfg \<and>
     (\<forall>j. length_sh s \<le> j \<and> j < SHELL_COMMAND_MAX_LENGTH cfg \<longrightarrow> buffer s ! j = NUL)"
  by (auto simp: editor_ok_def list_all_drop_nth)

lemma editor_ok_line_ok: "editor_ok cfg s \<Longrightarrow> line_ok cfg s"
  by (simp add: editor_ok_nth line_ok_def)

lemma shellNormal_editor_ok:
  assumes ok: "editor_ok cfg s"
  shows "\<exists>s'. shellNormal cfg s data = Inr s' \<and> editor_ok cfg s'"
proof -
  note h = ok[unfolded editor_ok_nth]
  consider (zero) "data = NUL"
    | (app) "data \<noteq> NUL" "length_sh s + 1 < SHELL_COMMAND_MAX_LENGTH cfg" "length_sh s = cursor s"
    | (mid) "data \<noteq> NUL" "length_sh s + 1 < SHELL_COMMAND_MAX_LENGTH cfg" "cursor s < length_sh s"
    | (full) "data \<noteq> NUL" "SHELL_COMMAND_MAX_LENGTH cfg \<le> length_sh s + 1"
    using h by linarith
  then show ?thesis
  proof cases
    case zero
    then show ?thesis using ok by (simp add: shellNormal_def)
  next
    case app
    have "shellNormal cfg s data =
           Inr (s\<lparr>buffer := (buffer s)[length_sh s := data], length_sh := length_sh s + 1,
                  cursor := cursor s + 1, out := out s @ [data]\<rparr>)"
      by (rule shellNormal_append) (use app h in simp_all)
    moreover have "editor_ok cfg (s\<lparr>buffer := (buffer s)[length_sh s := data], length_sh := length_sh s + 1,
                  cursor := cursor s + 1, out := out s @ [data]\<rparr>)"
      using h app by (simp add: editor_ok_nth)
    ultimately show ?thesis by blast
  next
    case mid
    have "\<exists>b w. shellNormal cfg s data =
             Inr (s\<lparr>buffer := b, cursor := cursor s + 1, length_sh := length_sh s + 1,
                    out := w\<rparr>) \<and>
           length b = length (buffer s) \<and>
           (\<forall>j. b ! j = (if j = length_sh s + 1 then NUL
                         else if j = cursor s then data
                         else if cursor s < j \<and> j \<le> length_sh s then buffer s ! (j - 1)
                         else buffer s ! j))"
      by (rule shellNormal_mid) (use mid h in simp_all)
    then obtain b w where
      r: "shellNormal cfg s data =
             Inr (s\<lparr>buffer := b, cursor := cursor s + 1, length_sh := length_sh s + 1, out := w\<rparr>)"
      and l: "length b = length (buffer s)"
      and n: "\<And>j. b ! j = (if j = length_sh s + 1 then NUL
                         else if j = cursor s then data
                         else if cursor s < j \<and> j \<le> length_sh s then buffer s ! (j - 1)
                         else buffer s ! j)"
      by blast
    have "editor_ok cfg (s\<lparr>buffer := b, cursor := cursor s + 1, length_sh := length_sh s + 1, out := w\<rparr>)"
      using h mid l by (simp add: editor_ok_nth n)
    with r show ?thesis by blast
  next
    case full
    have "NUL \<in> set (buffer s)" using h by (metis nth_mem order_refl)
    then have c: "cstring (buffer s) = Inr (takeWhile (\<lambda>c. c \<noteq> NUL) (buffer s))"
      by (rule cstring_takeWhile)
    have "editor_ok cfg (s\<lparr>cursor := length_sh s,
                  out := out s @ TEXT_CMD_TOO_LONG @ command s @ takeWhile (\<lambda>c. c \<noteq> NUL) (buffer s)\<rparr>)"
      using h by (simp add: editor_ok_nth)
    with shellNormal_too_long[OF full c] show ?thesis by blast
  qed
qed

lemma shellBackspace_editor_ok:
  assumes ok: "editor_ok cfg s"
  shows "\<exists>s'. shellBackspace s = Inr s' \<and> editor_ok cfg s'"
proof -
  note h = ok[unfolded editor_ok_nth]
  consider (empty) "length_sh s = 0"
    | (last) "0 < length_sh s" "cursor s = length_sh s"
    | (mid) "0 < cursor s" "cursor s < length_sh s"
    | (first) "0 < length_sh s" "cursor s = 0"
    using h by linarith
  then show ?thesis
  proof cases
    case empty
    then show ?thesis using ok by (simp add: shellBackspace_def)
  next
    case last
    have "shellBackspace s =
           Inr (s\<lparr>length_sh := length_sh s - 1, cursor := cursor s - 1,
                  buffer := (buffer s)[length_sh s - 1 := NUL],
                  out := out s @ [BS, SPC, BS]\<rparr>)"
      by (rule shellBackspace_end) (use last h in simp_all)
    moreover have "editor_ok cfg (s\<lparr>length_sh := length_sh s - 1, cursor := cursor s - 1,
                  buffer := (buffer s)[length_sh s - 1 := NUL],
                  out := out s @ [BS, SPC, BS]\<rparr>)"
      using h last by (auto simp: editor_ok_nth nth_list_update)
    ultimately show ?thesis by blast
  next
    case mid
    have "\<exists>b w. shellBackspace s =
             Inr (s\<lparr>buffer := b, length_sh := length_sh s - 1, cursor := cursor s - 1,
                    out := w\<rparr>) \<and>
           length b = length (buffer s) \<and>
           (\<forall>j. b ! j = (if j = length_sh s - 1 then NUL
                         else if cursor s \<le> Suc j \<and> Suc j < length_sh s then buffer s ! Suc j
                         else buffer s ! j))"
      by (rule shellBackspace_mid) (use mid h in simp_all)
    then obtain b w where
      r: "shellBackspace s =
             Inr (s\<lparr>buffer := b, length_sh := length_sh s - 1, cursor := cursor s - 1, out := w\<rparr>)"
      and l: "length b = length (buffer s)"
      and n: "\<And>j. b ! j = (if j = length_sh s - 1 then NUL
                         else if cursor s \<le> Suc j \<and> Suc j < length_sh s then buffer s ! Suc j
                         else buffer s ! j)"
      by blast
    have "editor_ok cfg (s\<lparr>buffer := b, length_sh := length_sh s - 1, cursor := cursor s - 1, out := w\<rparr>)"
      using h mid l by (auto simp: editor_ok_nth n)
    with r show ?thesis by blast
  next
    case first
    then show ?thesis using ok by (simp add: shellBackspace_def)
  qed
qed

lemma edit_run_editor_ok:
  "editor_ok cfg s \<Longrightarrow> \<exists>s'. edit_run cfg s ops = Inr s' \<and> editor_ok cfg s'"
proof (induction ops arbitrary: s)
  case Nil
  then show ?case by simp
next
  case (Cons x ops)
  have "\<exists>s1. edit_step cfg s x = Inr s1 \<and> editor_ok cfg s1"
    using Cons.prems shellNormal_editor_ok shellBackspace_editor_ok by (cases x) simp_all
  then obtain s1 where s1: "edit_step cfg s x = Inr s1" "editor_ok cfg s1" by blast
  from Cons.IH[OF s1(2)] s1(1) show ?case by simp
qed

lemma editor_ok_init:
  "0 < SHELL_COMMAND_MAX_LENGTH cfg \<Longrightarrow> editor_ok cfg (shellInit cfg (shell_zero cfg))"
  by (simp add: editor_ok_def shellInit_def shell_zero_def Let_def display_def shellDisplay_def list_all_length)

lemma cstring_terminated: "NUL \<notin> set e \<Longrightarrow> cstring (e @ NUL # rest) = Inr e"
  by (induction e) auto

lemma shellStringCopy_terminated:
  "NUL \<notin> set e \<Longrightarrow> length e < length dest \<Longrightarrow>
   shellStringCopy dest (e @ NUL # rest) = Inr (e @ NUL # drop (Suc (length e)) dest, length e)"
proof (induction e arbitrary: dest)
  case Nil
  then show ?case by (cases dest) simp_all
next
  case (Cons c e)
  then show ?case by (cases dest) auto
qed

lemma strcmp_same: "NUL \<notin> set e \<Longrightarrow> strcmp (e @ NUL # r1) (e @ NUL # r2) = Inr 0"
  by (induction e) auto

lemma c_rem_nonneg: "0 \<le> a \<Longrightarrow> 0 < b \<Longrightarrow> c_rem a b = Inr (a mod b)"
proof -
  assume a: "0 \<le> a" and b: "0 < b"
  have "sgn a * sgn b * (\<bar>a\<bar> div \<bar>b\<bar>) = a div b"
    using a b by (cases "a = 0") (simp_all add: sgn_if)
  then show ?thesis using b by (simp add: c_rem_def minus_div_mult_eq_mod)
qed

lemma take_drop_step:
  "i < length base \<Longrightarrow> i < j \<Longrightarrow>
   take (j - i) (drop i base) = base ! i # take (j - Suc i) (drop (Suc i) base)"
  by (metis Cons_nth_drop_Suc Suc_diff_Suc take_Suc_Cons)

lemma shellHandler_loop_visits:
  "shellHandler_loop env cfg base bound data i (fd, calls, s) = Inr (fd', calls', s') \<Longrightarrow>
   \<exists>j. i \<le> j \<and> (i < j \<longrightarrow> j \<le> length base) \<and>
       calls' = calls @ key_matches (take (j - i) (drop i base)) data \<and>
       (fd' \<longleftrightarrow> fd \<or> (\<exists>m. i \<le> m \<and> m < j \<and> fst (base ! m) = data)) \<and>
       ((\<forall>m. i \<le> m \<and> m < j \<longrightarrow> fst (base ! m) \<noteq> data) \<longrightarrow> s' = s) \<and>
       \<not> j < bound s' \<and>
       ((\<forall>f s0 s1. (data, Some f) \<in> set base \<longrightarrow> keyFunction env cfg f s0 = Inr s1
            \<longrightarrow> bound s1 = bound s0)
          \<longrightarrow> bound s' = bound s \<and> j = max i (bound s))"
proof (induction "32767 - i" arbitrary: i fd calls s)
  case 0
  have "\<not> i < bound s"
  proof
    assume "i < bound s"
    moreover have "32767 \<le> i" using "0.hyps" by simp
    ultimately have "shellHandler_loop env cfg base bound data i (fd, calls, s) = Inl CounterOverflow"
      by (subst shellHandler_loop.simps) simp
    with "0.prems" show False by simp
  qed
  with "0.prems" have "fd' = fd \<and> calls' = calls \<and> s' = s"
    by (subst (asm) shellHandler_loop.simps) simp
  with \<open>\<not> i < bound s\<close> show ?case by (intro exI[of _ i]) auto
next
  case (Suc n)
  let ?K = "\<forall>f s0 s1. (data, Some f) \<in> set base \<longrightarrow> keyFunction env cfg f s0 = Inr s1
                \<longrightarrow> bound s1 = bound s0"
  show ?case
  proof (cases "i < bound s")
    case False
    with Suc.prems have "fd' = fd \<and> calls' = calls \<and> s' = s"
      by (subst (asm) shellHandler_loop.simps) simp
    with False show ?thesis by (intro exI[of _ i]) auto
  next
    case True
    have i: "i < 32767" "n = 32767 - Suc i" using Suc.hyps(2) by simp_all
    have il: "i < length base"
      using Suc.prems True i
      by (subst (asm) shellHandler_loop.simps) (auto simp: table_at_def split: if_splits)
    obtain fd1 calls1 s1 where
      rec: "shellHandler_loop env cfg base bound data (Suc i) (fd1, calls1, s1) = Inr (fd', calls', s')"
      and st: "calls1 = calls @ key_matches [base ! i] data"
              "fd1 \<longleftrightarrow> fd \<or> fst (base ! i) = data"
              "fst (base ! i) \<noteq> data \<longrightarrow> s1 = s"
              "?K \<longrightarrow> bound s1 = bound s"
    proof (cases "fst (base ! i) = data")
      case False
      with Suc.prems True i il
      have "shellHandler_loop env cfg base bound data (Suc i) (fd, calls, s) = Inr (fd', calls', s')"
        by (subst (asm) shellHandler_loop.simps) (simp add: table_at_def)
      with False that show ?thesis by simp
    next
      case m: True
      show ?thesis
      proof (cases "snd (base ! i)")
        case None
        with Suc.prems True i il m
        have "shellHandler_loop env cfg base bound data (Suc i) (True, calls, s) = Inr (fd', calls', s')"
          by (subst (asm) shellHandler_loop.simps) (simp add: table_at_def)
        with m None that show ?thesis by simp
      next
        case (Some f)
        with Suc.prems True i il m
        have b: "bindE (keyFunction env cfg f s) (\<lambda>s1.
                shellHandler_loop env cfg base bound data (Suc i) (True, calls @ [f], s1))
              = Inr (fd', calls', s')"
          by (subst (asm) shellHandler_loop.simps) (simp add: table_at_def)
        then obtain s1 where
          k: "keyFunction env cfg f s = Inr s1"
          and r: "shellHandler_loop env cfg base bound data (Suc i) (True, calls @ [f], s1) = Inr (fd', calls', s')"
          by (cases "keyFunction env cfg f s") simp_all
        have "base ! i = (data, Some f)" using m Some by (simp add: prod_eq_iff)
        then have "(data, Some f) \<in> set base" using il by (metis nth_mem)
        with k have "?K \<longrightarrow> bound s1 = bound s" by blast
        with r m Some that show ?thesis by simp
      qed
    qed
    from Suc.hyps(1)[OF i(2) rec] obtain j where
      j: "Suc i \<le> j" "Suc i < j \<longrightarrow> j \<le> length base"
         "calls' = calls1 @ key_matches (take (j - Suc i) (drop (Suc i) base)) data"
         "fd' \<longleftrightarrow> fd1 \<or> (\<exists>m. Suc i \<le> m \<and> m < j \<and> fst (base ! m) = data)"
         "(\<forall>m. Suc i \<le> m \<and> m < j \<longrightarrow> fst (base ! m) \<noteq> data) \<longrightarrow> s' = s1"
         "\<not> j < bound s'"
         "?K \<longrightarrow> bound s' = bound s1 \<and> j = max (Suc i) (bound s1)"
      by blast
    have tk: "take (j - i) (drop i base) = base ! i # take (j - Suc i) (drop (Suc i) base)"
      using il j(1) by (intro take_drop_step) simp_all
    have c: "calls' = calls @ key_matches (take (j - i) (drop i base)) data"
      using j(3) st(1) by (simp add: tk split: option.splits)
    have f: "fd' \<longleftrightarrow> fd \<or> (\<exists>m. i \<le> m \<and> m < j \<and> fst (base ! m) = data)"
    proof -
      have "(\<exists>m. i \<le> m \<and> m < j \<and> fst (base ! m) = data) \<longleftrightarrow>
            fst (base ! i) = data \<or> (\<exists>m. Suc i \<le> m \<and> m < j \<and> fst (base ! m) = data)"
        using j(1) by (metis Suc_le_eq le_eq_less_or_eq not_less_eq_eq)
      then show ?thesis using j(4) st(2) by blast
    qed
    have u: "(\<forall>m. i \<le> m \<and> m < j \<longrightarrow> fst (base ! m) \<noteq> data) \<longrightarrow> s' = s"
    proof
      assume a: "\<forall>m. i \<le> m \<and> m < j \<longrightarrow> fst (base ! m) \<noteq> data"
      then have "fst (base ! i) \<noteq> data" using j(1) by simp
      moreover have "\<forall>m. Suc i \<le> m \<and> m < j \<longrightarrow> fst (base ! m) \<noteq> data" using a by simp
      ultimately show "s' = s" using j(5) st(3) by simp
    qed
    have l: "i < j \<longrightarrow> j \<le> length base" using j(1,2) il by (cases "Suc i = j") auto
    have kk: "?K \<longrightarrow> bound s' = bound s \<and> j = max i (bound s)"
    proof
      assume K: ?K
      with st(4) have "bound s1 = bound s" by blast
      moreover from K j(7) have "bound s' = bound s1 \<and> j = max (Suc i) (bound s1)" by blast
      ultimately show "bound s' = bound s \<and> j = max i (bound s)" using True by simp
    qed
    show ?thesis
      using j(1) l c f u j(6) kk by (intro exI[of _ j]) simp
  qed
qed

lemma shellHandler_loop_no_match:
  "bound s \<le> length base \<Longrightarrow> bound s \<le> 32767 \<Longrightarrow>
   (\<forall>m. i \<le> m \<and> m < bound s \<longrightarrow> fst (base ! m) \<noteq> data) \<Longrightarrow>
   shellHandler_loop env cfg base bound data i (fd, calls, s) = Inr (fd, calls, s)"
proof (induction "bound s - i" arbitrary: i)
  case 0
  then show ?case by (subst shellHandler_loop.simps) simp
next
  case (Suc n)
  then have i: "i < bound s" "i < 32767" "i < length base" "fst (base ! i) \<noteq> data"
    by auto
  have "shellHandler_loop env cfg base bound data (Suc i) (fd, calls, s) = Inr (fd, calls, s)"
    by (rule Suc.hyps(1)) (use Suc in auto)
  then show ?case using i by (subst shellHandler_loop.simps) (simp add: table_at_def)
qed

lemma shellClearLine_out:
  "shellClearLine s =
     s\<lparr>out := out s @ replicate (nat (int (length_sh s) - int (cursor s))) SPC @
                 concat (replicate (length_sh s) [BS, SPC, BS])\<rparr>"
  by (simp add: shellClearLine_def displayByte_times_out shellDelete_out)

lemma history_latest_index:
  assumes "0 \<le> historyFlag s" "historyFlag s < int (SHELL_HISTORY_MAX_NUMBER cfg)"
  shows "(historyFlag s + int (SHELL_HISTORY_MAX_NUMBER cfg) + - 1) mod int (SHELL_HISTORY_MAX_NUMBER cfg)
           = int (history_latest cfg s)"
proof (cases "historyFlag s = 0")
  case True
  have "(int (SHELL_HISTORY_MAX_NUMBER cfg) - 1) mod int (SHELL_HISTORY_MAX_NUMBER cfg)
          = int (SHELL_HISTORY_MAX_NUMBER cfg) - 1"
    using assms True by (intro mod_pos_pos_trivial) simp_all
  moreover have "historyFlag s + int (SHELL_HISTORY_MAX_NUMBER cfg) + - 1
                   = int (SHELL_HISTORY_MAX_NUMBER cfg) - 1"
    using True by simp
  moreover have "int (history_latest cfg s) = int (SHELL_HISTORY_MAX_NUMBER cfg) - 1"
    using assms True by (simp add: history_latest_def of_nat_diff)
  ultimately show ?thesis by simp
next
  case False
  then have "historyFlag s + int (SHELL_HISTORY_MAX_NUMBER cfg) + - 1
               = (historyFlag s - 1) + 1 * int (SHELL_HISTORY_MAX_NUMBER cfg)"
    by simp
  also have "\<dots> mod int (SHELL_HISTORY_MAX_NUMBER cfg) = (historyFlag s - 1) mod int (SHELL_HISTORY_MAX_NUMBER cfg)"
    by (rule mod_mult_self1)
  also have "\<dots> = historyFlag s - 1"
    using assms False by simp
  finally show ?thesis using assms False by (simp add: history_latest_def)
qed

lemma shellHistory_older:
  assumes off: "historyOffset s = 0"
      and ring: "length (history s) = SHELL_HISTORY_MAX_NUMBER cfg" "0 \<le> historyFlag s"
                "historyFlag s < int (SHELL_HISTORY_MAX_NUMBER cfg)"
      and cnt: "0 < historyCount s"
      and latest: "history s ! history_latest cfg s = e @ NUL # rest" "NUL \<notin> set e" "e \<noteq> []"
      and buf: "length e < length (buffer s)"
  shows "\<exists>s'. shellHistory cfg s 0 = Inr s' \<and> cstring (buffer s') = Inr e \<and>
           cursor s' = length e \<and> length_sh s' = length e \<and> historyOffset s' = - 1 \<and>
           inputMode s' = inputMode s"
proof -
  let ?M = "int (SHELL_HISTORY_MAX_NUMBER cfg)"
  have m: "\<not> 0 \<le> - (if int (historyCount s) > historyFlag s then int (historyCount s) else historyFlag s)"
    using cnt ring by simp
  have r: "c_rem (historyFlag s + ?M + - 1) ?M = Inr (int (history_latest cfg s))"
    using ring history_latest_index[OF ring(2,3)] by (simp add: c_rem_nonneg)
  have l: "history_latest cfg s < length (history s)"
    using ring by (auto simp: history_latest_def)
  have h: "history_at (history s) (int (history_latest cfg s)) = Inr (e @ NUL # rest)"
    using l latest(1) by (simp add: history_at_def)
  have c: "shellStringCopy (buffer s) (e @ NUL # rest) =
             Inr (e @ NUL # drop (Suc (length e)) (buffer s), length e)"
    using latest(2) buf by (rule shellStringCopy_terminated)
  show ?thesis
    using off m r h c latest(2,3)
    by (simp add: shellHistory_def shellHistory_load_def Let_def shellClearLine_out
        cstring_terminated display_def shellDisplay_def)
qed

lemma four_bytes:
  assumes "4 \<le> length (rest :: string)"
  obtains b2 b3 b4 b5 more where "rest = b2 # b3 # b4 # b5 # more"
proof -
  from assms obtain b2 r2 where "rest = b2 # r2" "3 \<le> length r2" by (cases rest) auto
  moreover then obtain b3 r3 where "r2 = b3 # r3" "2 \<le> length r3" by (cases r2) auto
  moreover then obtain b4 r4 where "r3 = b4 # r4" "1 \<le> length r4" by (cases r3) auto
  moreover then obtain b5 r5 where "r4 = b5 # r5" by (cases r4) auto
  ultimately show ?thesis using that by blast
qed

lemma strcmp_zero_terminated:
  "NUL \<notin> set e \<Longrightarrow> strcmp a (e @ NUL # rest) = Inr 0 \<Longrightarrow> \<exists>r. a = e @ NUL # r"
proof (induction e arbitrary: a)
  case Nil
  then show ?case by (cases a) (auto split: if_splits)
next
  case (Cons c e)
  then show ?case by (cases a) (auto split: if_splits)
qed

lemma shellHistoryAdd_latest:
  assumes flag: "1 \<le> historyFlag s" "historyFlag s < int (SHELL_HISTORY_MAX_NUMBER cfg)"
      and ring: "length (history s) = SHELL_HISTORY_MAX_NUMBER cfg"
      and line: "buffer s = e @ NUL # rest" "NUL \<notin> set e" "e \<noteq> []"
      and fits: "length e < length (history s ! nat (historyFlag s))"
      and run: "shellHistoryAdd cfg s = Inr s'"
  shows "\<exists>r. history s' ! history_latest cfg s' = e @ NUL # r"
proof -
  let ?f = "nat (historyFlag s)"
  have f: "0 < ?f" "?f < length (history s)" "int ?f = historyFlag s" using flag ring by simp_all
  have prev: "history_at (history s) (historyFlag s - 1) = Inr (history s ! (?f - 1))"
    using flag ring by (simp add: history_at_def nat_diff_distrib)
  have slot: "history_at (history s) (historyFlag s) = Inr (history s ! ?f)"
    using flag ring by (simp add: history_at_def)
  have copy: "shellStringCopy (history s ! ?f) (buffer s) =
                Inr (e @ NUL # drop (Suc (length e)) (history s ! ?f), length e)"
    unfolding line(1) using line(2) fits by (rule shellStringCopy_terminated)
  obtain r0 where cmp: "strcmp (history s ! (?f - 1)) (buffer s) = Inr r0"
    using run prev
    by (cases "strcmp (history s ! (?f - 1)) (buffer s)")
       (simp_all add: shellHistoryAdd_def shellHistoryAdd_index_def Let_def)
  show ?thesis
  proof (cases "r0 = 0")
    case True
    then have "s' = s\<lparr>historyOffset := 0\<rparr>"
      using run prev cmp by (simp add: shellHistoryAdd_def shellHistoryAdd_index_def Let_def)
    moreover from True cmp line obtain r where "history s ! (?f - 1) = e @ NUL # r"
      using strcmp_zero_terminated by metis
    ultimately show ?thesis using flag by (auto simp: history_latest_def)
  next
    case False
    have h: "history s' = (history s)[?f := e @ NUL # drop (Suc (length e)) (history s ! ?f)]"
      and fl: "historyFlag s' = (if historyFlag s + 1 \<ge> int (SHELL_HISTORY_MAX_NUMBER cfg) then 0
                                 else historyFlag s + 1)"
      using run prev cmp False slot copy line(3)
      by (auto simp: shellHistoryAdd_def shellHistoryAdd_index_def Let_def split: if_splits)
    have "history_latest cfg s' = ?f"
      using fl flag by (auto simp: history_latest_def nat_add_distrib)
    then show ?thesis using h f by simp
  qed
qed

lemma shellHistoryAdd_offset:
  "shellHistoryAdd cfg s = Inr s' \<Longrightarrow> historyOffset s' = 0 \<and> buffer s' = buffer s \<and>
     length (history s') = length (history s)"
  by (auto simp: shellHistoryAdd_def Let_def bindE_def split: sum.splits if_splits prod.splits)

lemma shellHistoryAdd_duplicate_inside:
  assumes flag: "1 \<le> historyFlag s" "historyFlag s < int (SHELL_HISTORY_MAX_NUMBER cfg)"
      and ring: "length (history s) = SHELL_HISTORY_MAX_NUMBER cfg"
      and line: "buffer s = e @ NUL # rest" "NUL \<notin> set e" "e \<noteq> []"
      and fits: "length e < length (history s ! nat (historyFlag s))"
      and run: "shellHistoryAdd cfg s = Inr s'"
      and inside: "historyFlag s' \<noteq> 0"
  shows "shellHistoryAdd cfg s' = Inr s'"
proof -
  from shellHistoryAdd_latest[OF flag ring line fits run] obtain r where
    r: "history s' ! history_latest cfg s' = e @ NUL # r" by blast
  from shellHistoryAdd_offset[OF run] have o: "historyOffset s' = 0" "buffer s' = buffer s"
    "length (history s') = length (history s)" by simp_all
  have pos: "1 \<le> historyFlag s' \<and> historyFlag s' \<le> int (SHELL_HISTORY_MAX_NUMBER cfg)"
    using run flag inside
    by (auto simp: shellHistoryAdd_def Let_def bindE_def split: sum.splits if_splits prod.splits)
  then have "history_at (history s') (historyFlag s' - 1) = Inr (e @ NUL # r)"
    using r o(3) ring by (simp add: history_at_def history_latest_def nat_diff_distrib)
  moreover have "strcmp (e @ NUL # r) (buffer s') = Inr 0"
    unfolding o(2) line(1) using line(2) by (rule strcmp_same)
  ultimately show ?thesis
    using o(1) by (simp add: shellHistoryAdd_def shellHistoryAdd_index_def Let_def)
qed

lemma edit_run_init_line_ok:
  assumes "0 < SHELL_COMMAND_MAX_LENGTH cfg"
  shows "\<exists>s. edit_run cfg (shellInit cfg (shell_zero cfg)) ops = Inr s \<and> line_ok cfg s"
  using edit_run_editor_ok[OF editor_ok_init[OF assms]] editor_ok_line_ok by blast

lemmas run_defs = shellHandler_def shellHandler_loop.simps shellInit_def shell_zero_def
        small_config_def example_config_def example_env_def Let_def display_def shellDisplay_def
        shellDefaultKeyFunctionList_def table_at_def shellNormal_def shellDisplayByte_def
        SHELL_KEY_LF_def SHELL_KEY_CR_def SHELL_KEY_TAB_def SHELL_KEY_BACKSPACE_def
        SHELL_KEY_DELETE_def SHELL_KEY_ESC_def NUL_def SPC_def shellEnter_def shellHistoryAdd_def
        shellHistoryAdd_index_def history_at_def recall_shell_def shellEnter_loop.simps
        param_set_def argv_at_def lit_def shellEnter_run.simps editor_view_def line_ok_def
        rd_def wr_def shellAnsiStart_def shellAnsi_def

lemma replicate_small:
  "replicate 4 x = [x, x, x, x]" "replicate 8 x = [x, x, x, x, x, x, x, x]"
  by (simp_all add: numeral_eq_Suc)

section \<open>The claims\<close>

text \<open>
  C1 at the input where the code departs from it. The bytes space, \<open>b\<close>, carriage
  return take \<open>recall_shell\<close> to a state with length 0 and the four buffer bytes zero,
  \<open>b\<close>, zero, zero, in which the invariant holds. One insert from there appends at the end of the line:
  \<^verbatim>\<open>shell->buffer[shell->length++] = data\<close> writes no terminator, so the byte \<open>b\<close> is
  now at index \<open>length\<close> and \<open>buffer[length] == 0\<close> fails. (The mid-line insert and both
  branches of \<^verbatim>\<open>shellBackspace\<close> write the terminator.)
\<close>

theorem append_keeps_stale_byte:
  "map_sum id (editor_view small_config)
     (shellHandler_all example_env small_config recall_shell [CHR '' '', CHR ''b'', CHR 0x0D])
     = Inr (editor_view small_config stale_line) \<and>
   editor_view small_config stale_line = ([NUL, CHR ''b'', NUL, NUL], 0, 0, True) \<and>
   map_sum id (editor_view small_config)
     (edit_run small_config stale_line [Insert (CHR ''x'')])
     = Inr ([CHR ''x'', CHR ''b'', NUL, NUL], 1, 1, False)"
  by (simp add: run_defs stale_line_def replicate_small)

text \<open>
  C2, as the code has it. In Normal mode, when the byte matches an entry of the table of
  the instance, \<^verbatim>\<open>shellHandler\<close> calls the key functions of the matching entries of that
  table, in table order, and nothing else: the default table is consulted only when no
  entry of the instance's table matched (\<^verbatim>\<open>if (keyDefFind == 0)\<close>). The entries scanned
  are the first \<open>j\<close> of the table. When the key functions of the matching entries leave
  \<^verbatim>\<open>keyFuncNumber\<close> as it is, \<open>j\<close> is \<^verbatim>\<open>keyFuncNumber\<close>: every matching entry of the
  table is called. In general (a key function may change \<^verbatim>\<open>keyFuncNumber\<close> during the
  loop, which reads it at every step) \<open>j\<close> is where the loop stopped, at or beyond the
  final \<^verbatim>\<open>keyFuncNumber\<close>.
\<close>

theorem override_match_replaces_default:
  assumes mode: "inputMode s = SHELL_IN_NORMAL"
      and k: "k < keyFuncNumber s" "k < length (keyFuncBase s)" "fst (keyFuncBase s ! k) = data"
      and run: "shellHandler env cfg s data = Inr (calls, s')"
  shows "\<exists>j. keyFuncNumber s' \<le> j \<and> j \<le> length (keyFuncBase s) \<and>
           (\<exists>m < j. fst (keyFuncBase s ! m) = data) \<and>
           calls = key_matches (take j (keyFuncBase s)) data \<and>
           ((\<forall>f s0 s1. (data, Some f) \<in> set (keyFuncBase s) \<longrightarrow>
                 keyFunction env cfg f s0 = Inr s1 \<longrightarrow> keyFuncNumber s1 = keyFuncNumber s0)
              \<longrightarrow> j = keyFuncNumber s)"
proof -
  let ?base = "keyFuncBase s"
  obtain fd1 calls1 s1 where
    l1: "shellHandler_loop env cfg ?base keyFuncNumber data 0 (False, [], s) = Inr (fd1, calls1, s1)"
    using run mode
    by (cases "shellHandler_loop env cfg ?base keyFuncNumber data 0 (False, [], s)")
       (auto simp: shellHandler_def)
  from shellHandler_loop_visits[OF l1] obtain j where
    j: "0 < j \<longrightarrow> j \<le> length ?base"
       "calls1 = key_matches (take j ?base) data"
       "fd1 \<longleftrightarrow> (\<exists>m. m < j \<and> fst (?base ! m) = data)"
       "(\<forall>m. m < j \<longrightarrow> fst (?base ! m) \<noteq> data) \<longrightarrow> s1 = s"
       "\<not> j < keyFuncNumber s1"
       "(\<forall>f s0 s1. (data, Some f) \<in> set ?base \<longrightarrow> keyFunction env cfg f s0 = Inr s1
            \<longrightarrow> keyFuncNumber s1 = keyFuncNumber s0)
          \<longrightarrow> keyFuncNumber s1 = keyFuncNumber s \<and> j = max 0 (keyFuncNumber s)"
    by auto
  have fd1: fd1
  proof (rule ccontr)
    assume "\<not> fd1"
    with j(3) have n: "\<forall>m. m < j \<longrightarrow> fst (?base ! m) \<noteq> data" by blast
    with j(4) have "s1 = s" by blast
    with j(5) k(1) have "k < j" by simp
    with n k(3) show False by blast
  qed
  have res: "calls = calls1 \<and> keyFuncNumber s' = keyFuncNumber s1"
    using run mode l1 fd1 by (auto simp: shellHandler_def split: if_splits)
  have jl: "j \<le> length ?base" using j(1) by (cases "j = 0") simp_all
  show ?thesis
    using res jl j(2,3,5,6) fd1 by (intro exI[of _ j]) auto
qed

theorem override_match_replaces_default_witness:
  "inputMode override_pair = SHELL_IN_NORMAL \<and>
   0 < keyFuncNumber override_pair \<and> 0 < length (keyFuncBase override_pair) \<and>
   fst (keyFuncBase override_pair ! 0) = CHR 0x09 \<and>
   keyFuncNumber override_pair = 2 \<and>
   shellHandler example_env example_config override_pair (CHR 0x09)
     = Inr ([FnUser 1, FnUser 0], override_pair) \<and>
   [FnUser 1, FnUser 0] = key_matches (take 2 (keyFuncBase override_pair)) (CHR 0x09)"
proof -
  have h: "inputMode override_pair = SHELL_IN_NORMAL"
    "0 < keyFuncNumber override_pair" "0 < length (keyFuncBase override_pair)"
    "fst (keyFuncBase override_pair ! 0) = CHR 0x09"
    by (simp_all add: override_pair_def shellSetKeyFuncList_def shellInit_def Let_def
        display_def shellDisplay_def SHELL_KEY_TAB_def)
  have n: "keyFuncNumber override_pair = 2"
    by (simp add: override_pair_def shellSetKeyFuncList_def)
  have r: "shellHandler example_env example_config override_pair (CHR 0x09)
     = Inr ([FnUser 1, FnUser 0], override_pair)"
    by (simp add: shellHandler_def shellHandler_loop.simps override_pair_def
        shellSetKeyFuncList_def shellInit_def Let_def display_def shellDisplay_def
        SHELL_KEY_TAB_def table_at_def example_env_def example_config_def)
  have keep: "\<forall>f s0 s1. (CHR 0x09, Some f) \<in> set (keyFuncBase override_pair) \<longrightarrow>
        keyFunction example_env example_config f s0 = Inr s1 \<longrightarrow>
        keyFuncNumber s1 = keyFuncNumber s0"
    by (auto simp: override_pair_def shellSetKeyFuncList_def example_env_def)
  from override_match_replaces_default[OF h r] keep n
  have "[FnUser 1, FnUser 0] = key_matches (take 2 (keyFuncBase override_pair)) (CHR 0x09)"
    by auto
  with h n r show ?thesis by blast
qed

text \<open>
  C2, as the specification words it, fails: with Tab overridden by a function of the
  application and Tab also in the default table, only the overriding function is called;
  \<^verbatim>\<open>shellTab\<close> is not.
\<close>

theorem both_tables_counterexample:
  "(CHR 0x09, Some (FnUser 0)) \<in> set (take (keyFuncNumber override_shell) (keyFuncBase override_shell)) \<and>
   (CHR 0x09, Some FnShellTab) \<in> set shellDefaultKeyFunctionList \<and>
   inputMode override_shell = SHELL_IN_NORMAL \<and>
   map_sum id fst (shellHandler example_env example_config override_shell (CHR 0x09))
     = Inr [FnUser 0]"
  by (simp add: shellHandler_def shellHandler_loop.simps override_shell_def
        shellSetKeyFuncList_def shellInit_def Let_def display_def shellDisplay_def
        SHELL_KEY_TAB_def table_at_def example_env_def example_config_def
        shellDefaultKeyFunctionList_def)


text \<open>
  C3, as the code has it. Tokenizing the line \<^verbatim>\<open>a\ b c\<close> yields exactly two tokens; the
  escaped space does not split the first one; the backslash byte stays in the token
  text: the tokens are the four bytes \<^verbatim>\<open>a\ b\<close> and \<open>c\<close>. This holds for both values of
  \<^verbatim>\<open>SHELL_AUTO_PRASE\<close>, any bytes after the line and any \<open>param\<close> array of two or more
  entries.
\<close>

theorem escaped_space_tokens:
  "shellEnter_tokens auto_prase (escaped_line @ r0 # rest) 6 (p0 # p1 # ps)
   = Inr (2, [Inr [CHR ''a'', CHR 0x5C, CHR '' '', CHR ''b''], Inr ''c''])"
  by (simp add: shellEnter_tokens_def escaped_line_def shellEnter_loop.simps NUL_def SPC_def
      param_set_def tokens_def)

text \<open>
  C3, as the specification words it, fails: the first token is not \<open>a b\<close>.
\<close>

theorem escaped_space_counterexample:
  "shellEnter_tokens False (escaped_line @ [NUL, NUL]) 6 [None, None, None]
   \<noteq> Inr (2, [Inr ''a b'', Inr ''c''])"
  by (simp add: shellEnter_tokens_def escaped_line_def shellEnter_loop.simps NUL_def SPC_def
      param_set_def tokens_def)

text \<open>
  C4, as the code has it. For a line of length \<open>n < capacity - 1\<close> with the cursor at any
  position \<open>c \<le> n\<close>, inserting a non-zero byte and then deleting backward restores the
  cursor, the length and the \<open>n\<close> bytes of the line, and changes no other field but the
  output. Of the bytes after the line, \<open>buffer[n]\<close> is overwritten with zero and, when
  \<open>c < n\<close>, \<open>buffer[n + 1]\<close> as well (the terminators that \<^verbatim>\<open>shellNormal\<close> and
  \<^verbatim>\<open>shellBackspace\<close> write); every other byte is as before. So the whole buffer is
  restored exactly when these bytes were zero already. A zero byte is not inserted at
  all: \<^verbatim>\<open>shellNormal\<close> ignores it.
\<close>

theorem insert_then_delete_restores_line:
  assumes len: "length (buffer s) = SHELL_COMMAND_MAX_LENGTH cfg"
      and cur: "cursor s \<le> length_sh s"
      and room: "length_sh s + 1 < SHELL_COMMAND_MAX_LENGTH cfg"
      and data: "data \<noteq> NUL"
  shows "\<exists>s1 s2. shellNormal cfg s data = Inr s1 \<and> shellBackspace s1 = Inr s2 \<and>
           cursor s2 = cursor s \<and> length_sh s2 = length_sh s \<and>
           take (length_sh s) (buffer s2) = take (length_sh s) (buffer s) \<and>
           buffer s2 = (if cursor s = length_sh s
                        then (buffer s)[length_sh s := NUL]
                        else (buffer s)[length_sh s := NUL, Suc (length_sh s) := NUL]) \<and>
           s2\<lparr>buffer := buffer s, out := out s\<rparr> = s"
proof (cases "cursor s = length_sh s")
  case True
  let ?s1 = "s\<lparr>buffer := (buffer s)[length_sh s := data], length_sh := length_sh s + 1,
                  cursor := cursor s + 1, out := out s @ [data]\<rparr>"
  have r1: "shellNormal cfg s data = Inr ?s1"
    by (rule shellNormal_append) (use True assms in simp_all)
  let ?s2 = "?s1\<lparr>length_sh := length_sh ?s1 - 1, cursor := cursor ?s1 - 1,
                  buffer := (buffer ?s1)[length_sh ?s1 - 1 := NUL],
                  out := out ?s1 @ [BS, SPC, BS]\<rparr>"
  have r2: "shellBackspace ?s1 = Inr ?s2"
    by (rule shellBackspace_end) (use True assms in simp_all)
  have "cursor ?s2 = cursor s \<and> length_sh ?s2 = length_sh s \<and>
           take (length_sh s) (buffer ?s2) = take (length_sh s) (buffer s) \<and>
           buffer ?s2 = (if cursor s = length_sh s
                        then (buffer s)[length_sh s := NUL]
                        else (buffer s)[length_sh s := NUL, Suc (length_sh s) := NUL]) \<and>
           ?s2\<lparr>buffer := buffer s, out := out s\<rparr> = s"
    using True by simp
  with r1 r2 show ?thesis by blast
next
  case False
  then have mid: "cursor s < length_sh s" using cur by simp
  have "\<exists>b w. shellNormal cfg s data =
             Inr (s\<lparr>buffer := b, cursor := cursor s + 1, length_sh := length_sh s + 1,
                    out := w\<rparr>) \<and>
           length b = length (buffer s) \<and>
           (\<forall>j. b ! j = (if j = length_sh s + 1 then NUL
                         else if j = cursor s then data
                         else if cursor s < j \<and> j \<le> length_sh s then buffer s ! (j - 1)
                         else buffer s ! j))"
    by (rule shellNormal_mid) (use mid assms in simp_all)
  then obtain b w where
    r1: "shellNormal cfg s data =
           Inr (s\<lparr>buffer := b, cursor := cursor s + 1, length_sh := length_sh s + 1, out := w\<rparr>)"
    and l1: "length b = length (buffer s)"
    and n1: "\<And>j. b ! j = (if j = length_sh s + 1 then NUL
                         else if j = cursor s then data
                         else if cursor s < j \<and> j \<le> length_sh s then buffer s ! (j - 1)
                         else buffer s ! j)"
    by blast
  let ?s1 = "s\<lparr>buffer := b, cursor := cursor s + 1, length_sh := length_sh s + 1, out := w\<rparr>"
  have "\<exists>b' w'. shellBackspace ?s1 =
             Inr (?s1\<lparr>buffer := b', length_sh := length_sh ?s1 - 1, cursor := cursor ?s1 - 1,
                    out := w'\<rparr>) \<and>
           length b' = length (buffer ?s1) \<and>
           (\<forall>j. b' ! j = (if j = length_sh ?s1 - 1 then NUL
                         else if cursor ?s1 \<le> Suc j \<and> Suc j < length_sh ?s1 then buffer ?s1 ! Suc j
                         else buffer ?s1 ! j))"
    by (rule shellBackspace_mid) (use mid assms l1 in simp_all)
  then obtain b' w' where
    r2: "shellBackspace ?s1 =
           Inr (?s1\<lparr>buffer := b', length_sh := length_sh ?s1 - 1, cursor := cursor ?s1 - 1, out := w'\<rparr>)"
    and l2: "length b' = length (buffer s)"
    and n2: "\<And>j. b' ! j = (if j = length_sh s then NUL
                         else if cursor s \<le> j \<and> j < length_sh s then b ! Suc j
                         else b ! j)"
    using l1 by auto
  let ?s2 = "?s1\<lparr>buffer := b', length_sh := length_sh ?s1 - 1, cursor := cursor ?s1 - 1, out := w'\<rparr>"
  have pt: "\<And>j. b' ! j = (if j = length_sh s \<or> j = Suc (length_sh s) then NUL else buffer s ! j)"
    using mid by (auto simp: n2 n1)
  have e: "b' = (buffer s)[length_sh s := NUL, Suc (length_sh s) := NUL]"
    by (rule nth_equalityI) (use l2 len room in \<open>auto simp: pt nth_list_update\<close>)
  have t: "take (length_sh s) b' = take (length_sh s) (buffer s)"
    by (rule nth_take_lemma) (use l2 len room in \<open>simp_all add: pt\<close>)
  have "cursor ?s2 = cursor s \<and> length_sh ?s2 = length_sh s \<and>
           take (length_sh s) (buffer ?s2) = take (length_sh s) (buffer s) \<and>
           buffer ?s2 = (if cursor s = length_sh s
                        then (buffer s)[length_sh s := NUL]
                        else (buffer s)[length_sh s := NUL, Suc (length_sh s) := NUL]) \<and>
           ?s2\<lparr>buffer := buffer s, out := out s\<rparr> = s"
    using t e False by simp
  with r1 r2 show ?thesis by blast
qed

theorem insert_then_delete_restores_line_witness:
  "length (buffer stale_mid) = SHELL_COMMAND_MAX_LENGTH small_config \<and>
   cursor stale_mid \<le> length_sh stale_mid \<and>
   length_sh stale_mid + 1 < SHELL_COMMAND_MAX_LENGTH small_config \<and>
   CHR ''y'' \<noteq> NUL \<and>
   (\<exists>s1 s2. shellNormal small_config stale_mid (CHR ''y'') = Inr s1 \<and>
      shellBackspace s1 = Inr s2 \<and>
      cursor s2 = cursor stale_mid \<and> length_sh s2 = length_sh stale_mid \<and>
      take (length_sh stale_mid) (buffer s2) = take (length_sh stale_mid) (buffer stale_mid) \<and>
      buffer s2 = (if cursor stale_mid = length_sh stale_mid
                   then (buffer stale_mid)[length_sh stale_mid := NUL]
                   else (buffer stale_mid)[length_sh stale_mid := NUL,
                                           Suc (length_sh stale_mid) := NUL]) \<and>
      s2\<lparr>buffer := buffer stale_mid, out := out stale_mid\<rparr> = stale_mid)"
proof -
  have h: "length (buffer stale_mid) = SHELL_COMMAND_MAX_LENGTH small_config"
    "cursor stale_mid \<le> length_sh stale_mid"
    "length_sh stale_mid + 1 < SHELL_COMMAND_MAX_LENGTH small_config"
    "CHR ''y'' \<noteq> NUL"
    by (simp_all add: stale_mid_def small_config_def example_config_def NUL_def)
  from insert_then_delete_restores_line[OF h] h show ?thesis by blast
qed

text \<open>
  C4, as the specification words it, fails: the buffer is not restored exactly. The bytes
  \<open>abc\<close>, carriage return, \<open>x\<close>, and the Left arrow take \<open>recall_shell\<close> to the line \<open>x\<close>
  with the cursor at 0 and the buffer bytes \<open>x\<close>, \<open>b\<close>, \<open>c\<close>, zero; after inserting \<open>y\<close>
  and deleting backward the line and the cursor are as before, but the buffer bytes are
  \<open>x\<close>, zero, zero, zero.
\<close>

theorem insert_then_delete_counterexample:
  "map_sum id (editor_view small_config)
     (shellHandler_all example_env small_config recall_shell
        [CHR ''a'', CHR ''b'', CHR ''c'', CHR 0x0D, CHR ''x'', CHR 0x1B, CHR 0x5B, CHR 0x44])
     = Inr (editor_view small_config stale_mid) \<and>
   editor_view small_config stale_mid = ([CHR ''x'', CHR ''b'', CHR ''c'', NUL], 1, 0, False) \<and>
   map_sum id (editor_view small_config)
     (bindE (shellNormal small_config stale_mid (CHR ''y'')) shellBackspace)
     = Inr ([CHR ''x'', NUL, NUL, NUL], 1, 0, True)"
  by (simp add: run_defs stale_mid_def replicate_small shellBackspace_def shellNormal_shift.simps
      shellBackspace_shift.simps displayBuffer_range.simps displayByte_times_out)

text \<open>
  C5, as the code has it. When an insert of a non-zero byte is attempted with the length
  at \<open>capacity - 1\<close>, the buffer, the length and every other field but two are unchanged:
  the cursor is moved to the end of the line (\<^verbatim>\<open>shell->cursor = shell->length\<close>), and the
  output is the too-long warning, the prompt and the text of the buffer.
\<close>

theorem insert_when_full_moves_cursor:
  assumes "data \<noteq> NUL"
      and "length_sh s + 1 = SHELL_COMMAND_MAX_LENGTH cfg"
      and "cstring (buffer s) = Inr line"
  shows "shellNormal cfg s data =
           Inr (s\<lparr>cursor := length_sh s,
                  out := out s @ TEXT_CMD_TOO_LONG @ command s @ line\<rparr>)"
  using assms by (simp add: shellNormal_too_long)

theorem insert_when_full_moves_cursor_witness:
  "CHR ''x'' \<noteq> NUL \<and>
   length_sh full_line + 1 = SHELL_COMMAND_MAX_LENGTH small_config \<and>
   cstring (buffer full_line) = Inr ''abc'' \<and>
   shellNormal small_config full_line (CHR ''x'') =
     Inr (full_line\<lparr>cursor := length_sh full_line,
            out := out full_line @ TEXT_CMD_TOO_LONG @ command full_line @ ''abc''\<rparr>)"
proof -
  have h: "CHR ''x'' \<noteq> NUL"
    "length_sh full_line + 1 = SHELL_COMMAND_MAX_LENGTH small_config"
    "cstring (buffer full_line) = Inr ''abc''"
    by (simp_all add: full_line_def small_config_def example_config_def NUL_def)
  from insert_when_full_moves_cursor[OF h] h show ?thesis by blast
qed

text \<open>
  C5, as the specification words it, fails: the refused insert is not a no-op on the
  cursor. On the full line \<open>abc\<close> with the cursor at 1, the cursor is 3 afterwards.
\<close>

theorem insert_when_full_counterexample:
  "cursor full_line = 1 \<and>
   map_sum id cursor (shellNormal small_config full_line (CHR ''x'')) = Inr 3"
proof -
  have "cstring (buffer full_line) = Inr ''abc''"
    by (simp add: full_line_def NUL_def)
  then have "shellNormal small_config full_line (CHR ''x'') =
           Inr (full_line\<lparr>cursor := length_sh full_line,
                  out := out full_line @ TEXT_CMD_TOO_LONG @ command full_line @ ''abc''\<rparr>)"
    by (intro shellNormal_too_long)
       (simp_all add: full_line_def small_config_def example_config_def NUL_def)
  then show ?thesis by (simp add: full_line_def)
qed

text \<open>
  C6 at the input where the code departs from it. The ring's write index is at the last
  slot; the first commit of \<open>e\<close> stores it there and wraps \<open>historyFlag\<close> to 0; the second
  commit of the same line then compares the line with \<^verbatim>\<open>history[historyFlag - 1]\<close>, which is
  \<^verbatim>\<open>history[-1]\<close>, not with the slot just written.
\<close>

theorem duplicate_after_wrap:
  "map_sum id (\<lambda>s. (historyFlag s, historyCount s, history s ! 4))
     (shellHistoryAdd small_config wrapping_ring) = Inr (0, 5, ''e'' @ [NUL, NUL, NUL]) \<and>
   bindE (shellHistoryAdd small_config wrapping_ring) (shellHistoryAdd small_config)
     = Inl (HistoryIndex (- 1))"
  by (simp add: shellHistoryAdd_def shellHistoryAdd_index_def history_at_def wrapping_ring_def
      small_config_def example_config_def Let_def NUL_def)


text \<open>
  C7. In Normal mode with \<open>historyOffset == 0\<close>, two history entries, and no entry for
  \<open>0x1B\<close> in the table of the instance, the bytes \<open>0x1B 0x5B 0x41\<close> leave the input mode
  at Normal and load the entry committed last into the buffer, with \<open>cursor == length ==\<close>
  the length of that entry. \<open>e\<close> is the text of the slot written last, non-empty as every
  stored entry is, and it fits the buffer.
\<close>

theorem up_arrow_recalls_latest:
  assumes mode: "inputMode s = SHELL_IN_NORMAL" and off: "historyOffset s = 0"
      and keys: "keyFuncNumber s \<le> length (keyFuncBase s)" "keyFuncNumber s \<le> 32767"
                "\<forall>m < keyFuncNumber s. fst (keyFuncBase s ! m) \<noteq> CHR 0x1B"
      and ring: "length (history s) = SHELL_HISTORY_MAX_NUMBER cfg" "0 \<le> historyFlag s"
                "historyFlag s < int (SHELL_HISTORY_MAX_NUMBER cfg)"
      and two: "historyCount s = 2"
      and latest: "history s ! history_latest cfg s = e @ NUL # rest" "NUL \<notin> set e" "e \<noteq> []"
      and buf: "length e < length (buffer s)"
  shows "\<exists>s3. shellHandler_all env cfg s [CHR 0x1B, CHR 0x5B, CHR 0x41] = Inr s3 \<and>
           inputMode s3 = SHELL_IN_NORMAL \<and> cstring (buffer s3) = Inr e \<and>
           cursor s3 = length e \<and> length_sh s3 = length e"
proof -
  define tf where "tf = (\<lambda>x::shell. if SHELL_LONG_HELP cfg then x\<lparr>tabFlag := False\<rparr> else x)"
  have tf: "historyOffset (tf x) = historyOffset x" "history (tf x) = history x"
    "historyFlag (tf x) = historyFlag x" "historyCount (tf x) = historyCount x"
    "buffer (tf x) = buffer x" "inputMode (tf x) = inputMode x"
    "cursor (tf x) = cursor x" "length_sh (tf x) = length_sh x" for x
    by (simp_all add: tf_def)
  have o: "shellHandler_loop env cfg (keyFuncBase s) keyFuncNumber (CHR 0x1B) 0 (False, [], s)
             = Inr (False, [], s)"
    by (rule shellHandler_loop_no_match) (use keys in auto)
  have s1: "shellHandler env cfg s (CHR 0x1B) = Inr ([FnShellAnsiStart], tf (s\<lparr>inputMode := SHELL_ANSI_ESC\<rparr>))"
    using mode o
    by (simp add: shellHandler_def shellHandler_loop.simps shellDefaultKeyFunctionList_def
        table_at_def SHELL_KEY_LF_def SHELL_KEY_CR_def SHELL_KEY_TAB_def
        SHELL_KEY_BACKSPACE_def SHELL_KEY_DELETE_def SHELL_KEY_ESC_def shellAnsiStart_def tf_def)
  let ?s1 = "tf (s\<lparr>inputMode := SHELL_ANSI_ESC\<rparr>)"
  have s2: "shellHandler env cfg ?s1 (CHR 0x5B) = Inr ([], tf (?s1\<lparr>inputMode := SHELL_ANSI_CSI\<rparr>))"
    by (simp add: shellHandler_def shellAnsi_def tf tf_def)
  let ?s2 = "tf (?s1\<lparr>inputMode := SHELL_ANSI_CSI\<rparr>)"
  have "\<exists>s'. shellHistory cfg ?s2 0 = Inr s' \<and> cstring (buffer s') = Inr e \<and>
           cursor s' = length e \<and> length_sh s' = length e \<and> historyOffset s' = - 1 \<and>
           inputMode s' = inputMode ?s2"
  proof (rule shellHistory_older[where rest = rest])
    have "history_latest cfg ?s2 = history_latest cfg s"
      by (simp add: history_latest_def tf)
    then show "history ?s2 ! history_latest cfg ?s2 = e @ NUL # rest"
      using latest(1) by (simp add: tf)
  qed (use off ring two latest buf in \<open>simp_all add: tf\<close>)
  then obtain s' where
    h: "shellHistory cfg ?s2 0 = Inr s'" "cstring (buffer s') = Inr e"
       "cursor s' = length e" "length_sh s' = length e"
    by blast
  have ansi: "shellHandler env cfg x data = Inr ([], tf y)"
    if "inputMode x \<noteq> SHELL_IN_NORMAL" "shellAnsi cfg x data = Inr y" "data \<noteq> CHR 0x09"
    for x y data
    using that by (simp add: shellHandler_def tf_def)
  have "shellAnsi cfg ?s2 (CHR 0x41) = Inr (s'\<lparr>inputMode := SHELL_IN_NORMAL\<rparr>)"
    using h(1) by (simp add: shellAnsi_def tf)
  then have s3: "shellHandler env cfg ?s2 (CHR 0x41) = Inr ([], tf (s'\<lparr>inputMode := SHELL_IN_NORMAL\<rparr>))"
    by (intro ansi) (simp_all add: tf)
  have "shellHandler_all env cfg s [CHR 0x1B, CHR 0x5B, CHR 0x41]
          = Inr (tf (s'\<lparr>inputMode := SHELL_IN_NORMAL\<rparr>))"
    using s1 s2 s3 by simp
  then show ?thesis using h(2,3,4) by (simp add: tf)
qed

theorem up_arrow_recalls_latest_witness:
  "inputMode recall_shell = SHELL_IN_NORMAL \<and> historyOffset recall_shell = 0 \<and>
   keyFuncNumber recall_shell = 0 \<and>
   length (history recall_shell) = SHELL_HISTORY_MAX_NUMBER small_config \<and>
   historyFlag recall_shell = 2 \<and> historyCount recall_shell = 2 \<and>
   history recall_shell ! 0 = ''ls'' @ NUL # [NUL] \<and>
   history recall_shell ! history_latest small_config recall_shell = ''cd'' @ NUL # [NUL] \<and>
   (\<exists>s3. shellHandler_all example_env small_config recall_shell [CHR 0x1B, CHR 0x5B, CHR 0x41] = Inr s3 \<and>
         inputMode s3 = SHELL_IN_NORMAL \<and> cstring (buffer s3) = Inr ''cd'' \<and>
         cursor s3 = length ''cd'' \<and> length_sh s3 = length ''cd'')"
proof -
  have h: "inputMode recall_shell = SHELL_IN_NORMAL" "historyOffset recall_shell = 0"
    "keyFuncNumber recall_shell \<le> length (keyFuncBase recall_shell)"
    "keyFuncNumber recall_shell \<le> 32767"
    "\<forall>m < keyFuncNumber recall_shell. fst (keyFuncBase recall_shell ! m) \<noteq> CHR 0x1B"
    "length (history recall_shell) = SHELL_HISTORY_MAX_NUMBER small_config"
    "0 \<le> historyFlag recall_shell"
    "historyFlag recall_shell < int (SHELL_HISTORY_MAX_NUMBER small_config)"
    "historyCount recall_shell = 2"
    "history recall_shell ! history_latest small_config recall_shell = ''cd'' @ NUL # [NUL]"
    "NUL \<notin> set ''cd''" "''cd'' \<noteq> []"
    "length ''cd'' < length (buffer recall_shell)"
    by (simp_all add: recall_shell_def shellInit_def shell_zero_def Let_def display_def
        shellDisplay_def small_config_def example_config_def history_latest_def NUL_def)
  have g: "keyFuncNumber recall_shell = 0" "historyFlag recall_shell = 2"
    "history recall_shell ! 0 = ''ls'' @ NUL # [NUL]"
    by (simp_all add: recall_shell_def shellInit_def shell_zero_def Let_def display_def
        shellDisplay_def)
  from up_arrow_recalls_latest[OF h, of example_env] h g show ?thesis by blast
qed

text \<open>
  C8. With the command table \<open>status\<close>, \<open>stop\<close>, \<open>start\<close> and \<open>st\<close> in a buffer of the
  configured size (of six bytes or more), completion lists all three commands, redraws
  the prompt and the buffer, and leaves \<open>st\<close> in the buffer with \<open>cursor == length == 2\<close>.
\<close>

theorem tab_lists_matches_keeps_prefix:
  assumes "length rest + 2 = SHELL_COMMAND_MAX_LENGTH cfg" and "4 \<le> length rest"
  shows "\<exists>s'. shellTab env cfg (st_shell s0 d1 d2 d3 rest) = Inr s' \<and>
           out s' = out s0 @ CRLF @ help_row ''status'' 16 d1 @ help_row ''stop'' 18 d2 @
                      help_row ''start'' 17 d3 @ command s0 @ ''st'' \<and>
           cstring (buffer s') = Inr ''st'' \<and> cursor s' = 2 \<and> length_sh s' = 2"
proof -
  from assms(2) obtain b2 b3 b4 b5 more where r: "rest = b2 # b3 # b4 # b5 # more"
    by (rule four_bytes)
  have c: "2 < SHELL_COMMAND_MAX_LENGTH cfg" using assms by simp
  have p: "replicate 16 SPC = [SPC,SPC,SPC,SPC,SPC,SPC,SPC,SPC,SPC,SPC,SPC,SPC,SPC,SPC,SPC,SPC]"
     "replicate 18 SPC = [SPC,SPC,SPC,SPC,SPC,SPC,SPC,SPC,SPC,SPC,SPC,SPC,SPC,SPC,SPC,SPC,SPC,SPC]"
     "replicate 17 SPC = [SPC,SPC,SPC,SPC,SPC,SPC,SPC,SPC,SPC,SPC,SPC,SPC,SPC,SPC,SPC,SPC,SPC]"
    by (simp_all add: numeral_eq_Suc)
  show ?thesis
    using c unfolding r
    by (simp add: shellTab_def st_shell_def st_commands_def shellTab_loop.simps table_at_def
        lit_def NUL_def shellDisplayItem_def shellDisplay_def display_def
        shellDisplayItem_pad.simps shellTab_longHelp_def Let_def help_row_def p)
qed

theorem tab_lists_matches_keeps_prefix_witness:
  "length (replicate 48 NUL) + 2 = SHELL_COMMAND_MAX_LENGTH example_config \<and>
   4 \<le> length (replicate 48 NUL) \<and>
   (\<exists>s'. shellTab example_env example_config
            (st_shell (shellInit example_config (shell_zero example_config))
               ''show status'' ''stop it'' ''start it'' (replicate 48 NUL)) = Inr s' \<and>
         out s' = out (shellInit example_config (shell_zero example_config)) @ CRLF @
                    help_row ''status'' 16 ''show status'' @ help_row ''stop'' 18 ''stop it'' @
                    help_row ''start'' 17 ''start it'' @
                    command (shellInit example_config (shell_zero example_config)) @ ''st'' \<and>
         cstring (buffer s') = Inr ''st'' \<and> cursor s' = 2 \<and> length_sh s' = 2)"
proof -
  have h: "length (replicate 48 NUL) + 2 = SHELL_COMMAND_MAX_LENGTH example_config"
    "4 \<le> length (replicate 48 NUL)"
    by (simp_all add: example_config_def)
  from tab_lists_matches_keeps_prefix[OF h] h show ?thesis by blast
qed

text \<open>
  C9 at the input where the code departs from it. After \<^verbatim>\<open>shellInit\<close> the index
  \<open>historyFlag - 1\<close> of the duplicate comparison is \<open>-1\<close>, outside the history array:
  the first commit reads \<^verbatim>\<open>history[-1]\<close>. The third part is the run of the bytes \<open>a\<close> and
  carriage return on the initialised instance.
\<close>

theorem first_commit_index:
  "shellHistoryAdd_index (shellInit cfg s) = - 1 \<and>
   shellHistoryAdd cfg (shellInit cfg s) = Inl (HistoryIndex (- 1)) \<and>
   shellHandler_all example_env example_config
     (shellInit example_config (shell_zero example_config)) [CHR ''a'', CHR 0x0D]
     = Inl (HistoryIndex (- 1))"
proof -
  have i: "shellHistoryAdd_index (shellInit cfg s) = - 1" for cfg s
    by (simp add: shellHistoryAdd_index_def shellInit_def Let_def display_def shellDisplay_def)
  have a: "shellHistoryAdd cfg s = Inl (HistoryIndex (- 1))" if "shellHistoryAdd_index s = - 1" for cfg s
    using that by (simp add: shellHistoryAdd_def Let_def history_at_def shellHistoryAdd_index_def)
  have r: "shellHandler_all example_env example_config
     (shellInit example_config (shell_zero example_config)) [CHR ''a'', CHR 0x0D]
     = Inl (HistoryIndex (- 1))"
    by (simp add: shellHandler_def shellHandler_loop.simps shellInit_def shell_zero_def
        example_config_def example_env_def Let_def display_def shellDisplay_def
        shellDefaultKeyFunctionList_def table_at_def shellNormal_def shellDisplayByte_def
        SHELL_KEY_LF_def SHELL_KEY_CR_def SHELL_KEY_TAB_def SHELL_KEY_BACKSPACE_def
        SHELL_KEY_DELETE_def SHELL_KEY_ESC_def NUL_def shellEnter_def shellHistoryAdd_def
        shellHistoryAdd_index_def history_at_def)
  show ?thesis using i a[OF i] r by blast
qed

text \<open>
  C10. In a state with \<open>length > 0\<close> and \<open>cursor == 0\<close>, delete-backward changes nothing:
  the buffer, the length, the cursor and every other field are as before, and no byte
  is written to the output.
\<close>

theorem backspace_at_line_start:
  "0 < length_sh s \<Longrightarrow> cursor s = 0 \<Longrightarrow> shellBackspace s = Inr s"
  by (simp add: shellBackspace_def)

theorem backspace_at_line_start_witness:
  "0 < length_sh (example_line\<lparr>cursor := 0\<rparr>) \<and> cursor (example_line\<lparr>cursor := 0\<rparr>) = 0 \<and>
   shellBackspace (example_line\<lparr>cursor := 0\<rparr>) = Inr (example_line\<lparr>cursor := 0\<rparr>)"
proof -
  have h: "0 < length_sh (example_line\<lparr>cursor := 0\<rparr>)" "cursor (example_line\<lparr>cursor := 0\<rparr>) = 0"
    by (simp_all add: example_line_def)
  from backspace_at_line_start[OF h] h show ?thesis by blast
qed

end
